theory Spec2Isabelle
  imports Main "HOL-Library.DAList"
begin

section \<open>Role-based permission policies (package roles, permission.go)\<close>

subsection \<open>Data model\<close>

text \<open>
  \<^verbatim>\<open>type PermissionMode string\<close> with its five predefined constants.
\<close>

type_synonym PermissionMode = string

definition Create :: PermissionMode where "Create = ''create''"
definition Read :: PermissionMode where "Read = ''read''"
definition Update :: PermissionMode where "Update = ''update''"
definition Delete :: PermissionMode where "Delete = ''delete''"
definition CRUD :: PermissionMode where "CRUD = ''crud''"

text \<open>
  A Go slice of strings is either \<^verbatim>\<open>nil\<close> or a (possibly empty) sequence; the
  source tests entries against \<^verbatim>\<open>nil\<close>, so the difference is kept. Slices are
  held by value, on the assumption that no two stored slices overlap in one
  backing array. The functions below keep it so: every entry they store is
  built by \<^verbatim>\<open>append\<close> from nil, from the empty literal, or from the entry itself,
  and \<^verbatim>\<open>append\<close> copies the elements it adds.
\<close>

datatype slice = NilSlice | Slice "string list"

fun elems :: "slice \<Rightarrow> string list" where
  "elems NilSlice = []"
| "elems (Slice xs) = xs"

text \<open>\<^verbatim>\<open>append(s, xs...)\<close>: appending nothing to a nil slice leaves it nil.\<close>

fun append_slice :: "slice \<Rightarrow> string list \<Rightarrow> slice" where
  "append_slice NilSlice xs = (if xs = [] then NilSlice else Slice xs)"
| "append_slice (Slice ys) xs = Slice (ys @ xs)"

text \<open>
  A reference is \<^verbatim>\<open>nil\<close> (\<open>None\<close>) or the address of an object. Maps are
  reference objects in Go and \<^verbatim>\<open>*Permission\<close> is a pointer, so both kinds of
  object live in a store; an address is an index into the store, and allocation
  extends the store at its end. The \<^verbatim>\<open>Role\<close> struct behind \<^verbatim>\<open>*Role\<close> is never
  read by this code, only its address is copied.
\<close>

type_synonym ref = "nat option"

type_synonym rolemap = "(PermissionMode, slice) alist"

record Permission =
  Role :: ref
  AllowedRoles :: ref
  DeniedRoles :: ref

record heap =
  perms :: "Permission list"
  maps :: "rolemap list"

datatype fault = NilMapAssign | NilDeref

text \<open>\<^verbatim>\<open>len(m)\<close>, \<^verbatim>\<open>m[k]\<close>, \<^verbatim>\<open>range m\<close> and \<^verbatim>\<open>m[k] = v\<close> on a map reference. Reading a
  nil map gives the zero value; assigning into it panics.\<close>

definition map_len :: "heap \<Rightarrow> ref \<Rightarrow> nat" where
  "map_len h r = (case r of None \<Rightarrow> 0 | Some a \<Rightarrow> length (DAList.impl_of (maps h ! a)))"

definition map_get :: "heap \<Rightarrow> ref \<Rightarrow> PermissionMode \<Rightarrow> slice" where
  "map_get h r k =
     (case r of
        None \<Rightarrow> NilSlice
      | Some a \<Rightarrow> (case DAList.lookup (maps h ! a) k of None \<Rightarrow> NilSlice | Some s \<Rightarrow> s))"

definition map_range :: "heap \<Rightarrow> ref \<Rightarrow> (PermissionMode \<times> slice) list" where
  "map_range h r = (case r of None \<Rightarrow> [] | Some a \<Rightarrow> DAList.impl_of (maps h ! a))"

definition map_set :: "heap \<Rightarrow> ref \<Rightarrow> PermissionMode \<Rightarrow> slice \<Rightarrow> fault + heap" where
  "map_set h r k v =
     (case r of
        None \<Rightarrow> Inl NilMapAssign
      | Some a \<Rightarrow> Inr (h\<lparr>maps := (maps h)[a := DAList.update k v (maps h ! a)]\<rparr>))"

subsection \<open>includeRoles\<close>

text \<open>
  The constant \<^verbatim>\<open>Anyone\<close> is declared in a file of package roles that is not part
  of the sources at hand, so the wildcard role name is a parameter \<open>anyone\<close>.
  The outer loop runs over \<open>roles\<close> (the policy's list), the inner one over
  \<open>values\<close> (the actor's names).
\<close>

fun includeRoles :: "string \<Rightarrow> string list \<Rightarrow> string list \<Rightarrow> bool" where
  "includeRoles anyone [] values = False"
| "includeRoles anyone (role # roles) values =
     (if role = anyone then True
      else if role \<in> set values then True
      else includeRoles anyone roles values)"

subsection \<open>HasPermission\<close>

text \<open>
  Modelled from the spec: the interface \<^verbatim>\<open>Roler\<close> is declared in a file of
  package roles that is not among the sources at hand. A value with this
  capability reports the role names it holds, and the call site appends what
  its \<^verbatim>\<open>GetRoles()\<close> returns to the names collected so far. An actor is an
  \<^verbatim>\<open>interface{}\<close> value: a string, a value implementing \<^verbatim>\<open>Roler\<close> (carried here
  by the names it reports), or anything else. \<^verbatim>\<open>GetRoles()\<close> is taken to return.
\<close>

datatype actor = Str string | Roler "string list" | Other

datatype diag = InvalidRole actor

fun resolve :: "actor list \<Rightarrow> string list \<Rightarrow> actor + string list" where
  "resolve [] roleNames = Inr roleNames"
| "resolve (Str r # roles) roleNames = resolve roles (roleNames @ [r])"
| "resolve (Roler rs # roles) roleNames = resolve roles (roleNames @ rs)"
| "resolve (Other # roles) roleNames = Inl Other"

text \<open>
  The result is the returned boolean together with the diagnostics printed.
  The receiver is passed by value: a copy of the struct, whose map references
  are read in the store.
\<close>

definition HasPermission ::
  "string \<Rightarrow> heap \<Rightarrow> Permission \<Rightarrow> PermissionMode \<Rightarrow> actor list \<Rightarrow> bool \<times> diag list" where
  "HasPermission anyone h permission mode roles =
     (case resolve roles [] of
        Inl role \<Rightarrow> (False, [InvalidRole role])
      | Inr roleNames \<Rightarrow>
          (if map_len h (DeniedRoles permission) \<noteq> 0
              \<and> map_get h (DeniedRoles permission) mode \<noteq> NilSlice
              \<and> includeRoles anyone (elems (map_get h (DeniedRoles permission) mode)) roleNames
           then (False, [])
           else if map_len h (AllowedRoles permission) = 0 then (True, [])
           else if map_get h (AllowedRoles permission) mode \<noteq> NilSlice
                   \<and> includeRoles anyone (elems (map_get h (AllowedRoles permission) mode)) roleNames
           then (True, [])
           else (False, [])))"

subsection \<open>Concat\<close>

text \<open>
  \<open>appendEntries\<close> is one of the two \<^verbatim>\<open>range\<close> loops of the closure
  \<^verbatim>\<open>appendRoles\<close>: for every entry of the operand's map, in the order the
  iteration delivers them, the roles are appended to the entry of the same mode
  in the map \<open>dst\<close> of the result.
\<close>

fun appendEntries :: "heap \<Rightarrow> ref \<Rightarrow> (PermissionMode \<times> slice) list \<Rightarrow> fault + heap" where
  "appendEntries h dst [] = Inr h"
| "appendEntries h dst ((mode, roles) # rest) =
     (case map_set h dst mode (append_slice (map_get h dst mode) (elems roles)) of
        Inl e \<Rightarrow> Inl e
      | Inr h' \<Rightarrow> appendEntries h' dst rest)"

text \<open>The closure \<^verbatim>\<open>appendRoles\<close>; \<open>result\<close> is the address of the captured variable.\<close>

definition appendRoles :: "heap \<Rightarrow> nat \<Rightarrow> ref \<Rightarrow> fault + heap" where
  "appendRoles h result p =
     (case p of
        None \<Rightarrow> Inr h
      | Some a \<Rightarrow>
          (let h1 = h\<lparr>perms := (perms h)[result := (perms h ! result)\<lparr>Role := Role (perms h ! a)\<rparr>]\<rparr>
           in case appendEntries h1 (DeniedRoles (perms h1 ! result))
                     (map_range h1 (DeniedRoles (perms h1 ! a))) of
                Inl e \<Rightarrow> Inl e
              | Inr h2 \<Rightarrow>
                  appendEntries h2 (AllowedRoles (perms h2 ! result))
                     (map_range h2 (AllowedRoles (perms h2 ! a)))))"

text \<open>
  \<^verbatim>\<open>Global\<close> is declared in the same missing file as \<^verbatim>\<open>Anyone\<close> and is the
  parameter \<open>global\<close>. The result struct and its two map literals are allocated
  at the end of the store.
\<close>

definition Concat :: "ref \<Rightarrow> heap \<Rightarrow> ref \<Rightarrow> ref \<Rightarrow> fault + (heap \<times> ref)" where
  "Concat global h permission newPermission =
     (let allowed = length (maps h);
          denied = Suc (length (maps h));
          result = length (perms h);
          h0 = h\<lparr>perms := perms h @
                   [\<lparr>Role = global, AllowedRoles = Some allowed, DeniedRoles = Some denied\<rparr>],
                 maps := maps h @ [DAList.empty, DAList.empty]\<rparr>
      in case appendRoles h0 result newPermission of
           Inl e \<Rightarrow> Inl e
         | Inr h1 \<Rightarrow>
             (case appendRoles h1 result permission of
                Inl e \<Rightarrow> Inl e
              | Inr h2 \<Rightarrow> Inr (h2, Some result)))"

subsection \<open>Allow and Deny\<close>

text \<open>
  Both mutate the map behind the receiver in place and return the receiver.
  A nil receiver faults when its field is read.
\<close>

function Allow :: "heap \<Rightarrow> ref \<Rightarrow> PermissionMode \<Rightarrow> string list \<Rightarrow> fault + (heap \<times> ref)" where
  "Allow h permission mode roles =
     (if mode = CRUD then
        (case Allow h permission Create roles of
           Inl e \<Rightarrow> Inl e
         | Inr (h1, p1) \<Rightarrow>
             (case Allow h1 p1 Update roles of
                Inl e \<Rightarrow> Inl e
              | Inr (h2, p2) \<Rightarrow>
                  (case Allow h2 p2 Read roles of
                     Inl e \<Rightarrow> Inl e
                   | Inr (h3, p3) \<Rightarrow> Allow h3 p3 Delete roles)))
      else
        (case permission of
           None \<Rightarrow> Inl NilDeref
         | Some a \<Rightarrow>
             (case (if map_get h (AllowedRoles (perms h ! a)) mode = NilSlice
                    then map_set h (AllowedRoles (perms h ! a)) mode (Slice [])
                    else Inr h) of
                Inl e \<Rightarrow> Inl e
              | Inr h1 \<Rightarrow>
                  (case map_set h1 (AllowedRoles (perms h1 ! a)) mode
                          (append_slice (map_get h1 (AllowedRoles (perms h1 ! a)) mode) roles) of
                     Inl e \<Rightarrow> Inl e
                   | Inr h2 \<Rightarrow> Inr (h2, permission)))))"
  by pat_completeness auto
termination
  by (relation "measure (\<lambda>(h, p, mode, roles). if mode = CRUD then 1 else 0)")
     (auto simp: Create_def Read_def Update_def Delete_def CRUD_def)

function Deny :: "heap \<Rightarrow> ref \<Rightarrow> PermissionMode \<Rightarrow> string list \<Rightarrow> fault + (heap \<times> ref)" where
  "Deny h permission mode roles =
     (if mode = CRUD then
        (case Deny h permission Create roles of
           Inl e \<Rightarrow> Inl e
         | Inr (h1, p1) \<Rightarrow>
             (case Deny h1 p1 Update roles of
                Inl e \<Rightarrow> Inl e
              | Inr (h2, p2) \<Rightarrow>
                  (case Deny h2 p2 Read roles of
                     Inl e \<Rightarrow> Inl e
                   | Inr (h3, p3) \<Rightarrow> Deny h3 p3 Delete roles)))
      else
        (case permission of
           None \<Rightarrow> Inl NilDeref
         | Some a \<Rightarrow>
             (case (if map_get h (DeniedRoles (perms h ! a)) mode = NilSlice
                    then map_set h (DeniedRoles (perms h ! a)) mode (Slice [])
                    else Inr h) of
                Inl e \<Rightarrow> Inl e
              | Inr h1 \<Rightarrow>
                  (case map_set h1 (DeniedRoles (perms h1 ! a)) mode
                          (append_slice (map_get h1 (DeniedRoles (perms h1 ! a)) mode) roles) of
                     Inl e \<Rightarrow> Inl e
                   | Inr h2 \<Rightarrow> Inr (h2, permission)))))"
  by pat_completeness auto
termination
  by (relation "measure (\<lambda>(h, p, mode, roles). if mode = CRUD then 1 else 0)")
     (auto simp: Create_def Read_def Update_def Delete_def CRUD_def)

section \<open>The resource wrapper (package resource, resource.go)\<close>

text \<open>
  Of the \<^verbatim>\<open>Resource\<close> struct only the field \<^verbatim>\<open>Permission\<close> is read here.
\<close>

record Resource =
  Permission :: ref

text \<open>
  Modelled from the spec: the type \<^verbatim>\<open>Context\<close> belongs to a package that is not
  among the sources at hand. The acting context supplies a list of actor
  values; the one field read here is \<^verbatim>\<open>Roles\<close>, whose elements are boxed one by
  one into the argument list of the call.
\<close>

record Context =
  Roles :: "actor list"

text \<open>
  The resource and the context arrive as pointers and are only read, so they
  are passed as optional values (\<open>None\<close> for \<^verbatim>\<open>nil\<close>). Reading the field of a nil
  context faults.
\<close>

definition Resource_HasPermission ::
  "string \<Rightarrow> heap \<Rightarrow> Resource option \<Rightarrow> PermissionMode \<Rightarrow> Context option
     \<Rightarrow> fault + (bool \<times> diag list)" where
  "Resource_HasPermission anyone h res mode context =
     (case res of
        None \<Rightarrow> Inr (True, [])
      | Some r \<Rightarrow>
          (case Permission r of
             None \<Rightarrow> Inr (True, [])
           | Some a \<Rightarrow>
               (case context of
                  None \<Rightarrow> Inl NilDeref
                | Some c \<Rightarrow>
                    Inr (HasPermission anyone h (perms h ! a) mode
                           (foldl (\<lambda>roles role. roles @ [role]) [] (Roles c))))))"

section \<open>Notions used to state the properties\<close>

text \<open>
  Go has no dangling references: in a well-formed store every map reference
  held by a policy is nil or the address of an allocated map, and a pointer to
  a policy is nil or the address of an allocated struct.
\<close>

definition ref_ok :: "nat \<Rightarrow> ref \<Rightarrow> bool" where
  "ref_ok n r = (case r of None \<Rightarrow> True | Some a \<Rightarrow> a < n)"

definition wf_heap :: "heap \<Rightarrow> bool" where
  "wf_heap h =
     list_all (\<lambda>P. ref_ok (length (maps h)) (AllowedRoles P)
                  \<and> ref_ok (length (maps h)) (DeniedRoles P)) (perms h)"

text \<open>Whether \<open>k\<close> is a key of the map behind \<open>r\<close> (a nil map has no keys).\<close>

definition has_key :: "heap \<Rightarrow> ref \<Rightarrow> PermissionMode \<Rightarrow> bool" where
  "has_key h r k = (case r of None \<Rightarrow> False | Some a \<Rightarrow> DAList.lookup (maps h ! a) k \<noteq> None)"

text \<open>
  The role names a policy pointer lists for a mode, and whether it has an entry
  for the mode at all; a nil pointer lists nothing.
\<close>

definition allowed_of :: "heap \<Rightarrow> ref \<Rightarrow> PermissionMode \<Rightarrow> string list" where
  "allowed_of h p mode =
     (case p of None \<Rightarrow> [] | Some a \<Rightarrow> elems (map_get h (AllowedRoles (perms h ! a)) mode))"

definition denied_of :: "heap \<Rightarrow> ref \<Rightarrow> PermissionMode \<Rightarrow> string list" where
  "denied_of h p mode =
     (case p of None \<Rightarrow> [] | Some a \<Rightarrow> elems (map_get h (DeniedRoles (perms h ! a)) mode))"

definition allowed_key :: "heap \<Rightarrow> ref \<Rightarrow> PermissionMode \<Rightarrow> bool" where
  "allowed_key h p mode =
     (case p of None \<Rightarrow> False | Some a \<Rightarrow> has_key h (AllowedRoles (perms h ! a)) mode)"

definition denied_key :: "heap \<Rightarrow> ref \<Rightarrow> PermissionMode \<Rightarrow> bool" where
  "denied_key h p mode =
     (case p of None \<Rightarrow> False | Some a \<Rightarrow> has_key h (DeniedRoles (perms h ! a)) mode)"

text \<open>The stored entry itself, if the map of the policy has the key.\<close>

definition allowed_entry :: "heap \<Rightarrow> ref \<Rightarrow> PermissionMode \<Rightarrow> slice option" where
  "allowed_entry h p k =
     (case p of None \<Rightarrow> None | Some a \<Rightarrow> map_of (map_range h (AllowedRoles (perms h ! a))) k)"

definition denied_entry :: "heap \<Rightarrow> ref \<Rightarrow> PermissionMode \<Rightarrow> slice option" where
  "denied_entry h p k =
     (case p of None \<Rightarrow> None | Some a \<Rightarrow> map_of (map_range h (DeniedRoles (perms h ! a))) k)"

text \<open>The wildcard-or-exact-match test, on sets: a list of a policy matches the
  names of the actors when it holds the wildcard or one of the names.\<close>

definition matches :: "string \<Rightarrow> string list \<Rightarrow> string list \<Rightarrow> bool" where
  "matches anyone listed names = (anyone \<in> set listed \<or> set listed \<inter> set names \<noteq> {})"

text \<open>The concrete modes a builder call with \<open>mode\<close> writes to.\<close>

definition expand :: "PermissionMode \<Rightarrow> PermissionMode list" where
  "expand mode = (if mode = CRUD then [Create, Update, Read, Delete] else [mode])"

text \<open>A chain of builder calls on one receiver, \<^verbatim>\<open>p.Allow(...).Deny(...)...\<close>.\<close>

datatype call = AllowCall PermissionMode "string list" | DenyCall PermissionMode "string list"

fun builder :: "heap \<Rightarrow> ref \<Rightarrow> call list \<Rightarrow> fault + (heap \<times> ref)" where
  "builder h p [] = Inr (h, p)"
| "builder h p (AllowCall mode roles # cs) =
     (case Allow h p mode roles of Inl e \<Rightarrow> Inl e | Inr (h', p') \<Rightarrow> builder h' p' cs)"
| "builder h p (DenyCall mode roles # cs) =
     (case Deny h p mode roles of Inl e \<Rightarrow> Inl e | Inr (h', p') \<Rightarrow> builder h' p' cs)"

text \<open>What one iteration of a \<^verbatim>\<open>range\<close> loop of \<^verbatim>\<open>appendRoles\<close> leaves in the entry
  of the result, from the entry before and the operand's entry (if any).\<close>

fun merge_entry :: "slice option \<Rightarrow> slice option \<Rightarrow> slice option" where
  "merge_entry d None = d"
| "merge_entry d (Some roles) =
     Some (append_slice (case d of None \<Rightarrow> NilSlice | Some s \<Rightarrow> s) (elems roles))"

text \<open>What one builder call on a concrete mode leaves in the map it writes to:
  the roles appended to the entry of the mode, which is created if need be.\<close>

definition add_roles :: "string list \<Rightarrow> PermissionMode \<Rightarrow> rolemap \<Rightarrow> rolemap" where
  "add_roles roles mode m =
     DAList.update mode
       (Slice (elems (case DAList.lookup m mode of None \<Rightarrow> NilSlice | Some s \<Rightarrow> s) @ roles)) m"

subsection \<open>A store for the examples\<close>

text \<open>
  Three policies: the first allows reading to viewers and denies deleting to
  interns; the second has no allowed map and denies deleting to guests and to
  the wildcard \<open>*\<close>; the third is the zero value, both maps nil.
\<close>

definition example_store :: heap where
  "example_store =
     \<lparr>perms = [\<lparr>Role = Some 7, AllowedRoles = Some 0, DeniedRoles = Some 1\<rparr>,
               \<lparr>Role = Some 9, AllowedRoles = None, DeniedRoles = Some 2\<rparr>,
               \<lparr>Role = None, AllowedRoles = None, DeniedRoles = None\<rparr>],
      maps = [DAList.update Read (Slice [''viewer'']) DAList.empty,
              DAList.update Delete (Slice [''intern'']) DAList.empty,
              DAList.update Delete (Slice [''guest'', ''*'']) DAList.empty]\<rparr>"

section \<open>Properties\<close>

lemmas mode_defs = Create_def Read_def Update_def Delete_def CRUD_def

text \<open>Reading the example store.\<close>

lemma example_perms:
  "perms example_store ! 0 = \<lparr>Role = Some 7, AllowedRoles = Some 0, DeniedRoles = Some 1\<rparr>"
  "perms example_store ! 2 = \<lparr>Role = None, AllowedRoles = None, DeniedRoles = None\<rparr>"
  "perms example_store ! Suc 0 = \<lparr>Role = Some 9, AllowedRoles = None, DeniedRoles = Some 2\<rparr>"
  "length (perms example_store) = 3"
  by (simp_all add: example_store_def)

lemma example_maps:
  "maps example_store ! 0 = DAList.update Read (Slice [''viewer'']) DAList.empty"
  "maps example_store ! 2 = DAList.update Delete (Slice [''guest'', ''*'']) DAList.empty"
  "maps example_store ! Suc 0 = DAList.update Delete (Slice [''intern'']) DAList.empty"
  "length (maps example_store) = 3"
  by (simp_all add: example_store_def)

lemma example_wf: "wf_heap example_store"
  by (simp add: wf_heap_def ref_ok_def example_store_def)

lemma example_len:
  "map_len example_store (Some 0) = 1"
  "map_len example_store (Some (Suc 0)) = 1"
  "map_len example_store (Some 2) = 1"
  "map_len example_store None = 0"
  by (simp_all add: map_len_def example_maps update.rep_eq empty.rep_eq)

lemma example_get:
  "map_get example_store (Some 0) Read = Slice [''viewer'']"
  "map_get example_store (Some 0) Update = NilSlice"
  "map_get example_store (Some (Suc 0)) Delete = Slice [''intern'']"
  "map_get example_store (Some (Suc 0)) Read = NilSlice"
  "map_get example_store (Some (Suc 0)) Update = NilSlice"
  "map_get example_store (Some 2) Delete = Slice [''guest'', ''*'']"
  "map_get example_store (Some 2) Read = NilSlice"
  "map_get example_store (Some 2) Update = NilSlice"
  "map_get example_store None k = NilSlice"
  by (simp_all add: map_get_def example_maps mode_defs)

lemma example_key:
  "has_key example_store (Some 0) Read"
  "\<not> has_key example_store (Some 0) Update"
  "\<not> has_key example_store (Some 0) CRUD"
  "\<not> has_key example_store (Some (Suc 0)) CRUD"
  by (simp_all add: has_key_def example_maps mode_defs)

subsection \<open>The decision function\<close>

lemma includeRoles_matches: "includeRoles anyone listed names = matches anyone listed names"
  by (induction listed) (auto simp: matches_def)

lemma resolve_invalid: "Other \<in> set actors \<Longrightarrow> resolve actors acc = Inl Other"
  by (induction actors acc rule: resolve.induct) auto

lemma map_get_len: "map_get h r k \<noteq> NilSlice \<Longrightarrow> map_len h r \<noteq> 0"
  by (auto simp: map_get_def map_len_def lookup.rep_eq split: option.splits)

lemma has_key_len: "has_key h r k \<Longrightarrow> map_len h r \<noteq> 0"
  by (auto simp: has_key_def map_len_def lookup.rep_eq split: option.splits)

lemma no_key_get: "\<not> has_key h r k \<Longrightarrow> map_get h r k = NilSlice"
  by (auto simp: has_key_def map_get_def split: option.splits)

lemma elems_Nil_slice: "elems s \<noteq> [] \<Longrightarrow> s \<noteq> NilSlice"
  by (cases s) auto

lemma matches_nonempty: "matches anyone listed names \<Longrightarrow> listed \<noteq> []"
  by (auto simp: matches_def)

text \<open>
  Once the actors resolve to names, the decision is: no match in the denied
  entry, and either no allowed entries at all or a match in the allowed entry.
\<close>

lemma HasPermission_decision:
  assumes "resolve actors [] = Inr names"
  shows "HasPermission anyone h P mode actors =
           (\<not> matches anyone (elems (map_get h (DeniedRoles P) mode)) names
            \<and> (map_len h (AllowedRoles P) = 0
               \<or> matches anyone (elems (map_get h (AllowedRoles P) mode)) names), [])"
proof -
  have d: "matches anyone (elems (map_get h r mode)) names \<Longrightarrow>
           map_len h r \<noteq> 0 \<and> map_get h r mode \<noteq> NilSlice" for r
    using matches_nonempty elems_Nil_slice map_get_len by blast
  show ?thesis
    using assms d[of "DeniedRoles P"] d[of "AllowedRoles P"]
    by (auto simp: HasPermission_def includeRoles_matches)
qed

text \<open>
  Claim C3. If the denied entry of the action holds one of the resolved names of
  the actors, the call returns false and prints nothing, whatever the allowed
  map holds; if the denied entry holds the wildcard, the call returns false for
  every list of actors (also one that does not resolve).
\<close>

theorem deny_overrides_allow:
  "(resolve actors [] = Inr names
      \<and> set (elems (map_get h (DeniedRoles P) mode)) \<inter> set names \<noteq> {}
      \<longrightarrow> HasPermission anyone h P mode actors = (False, []))
   \<and> (anyone \<in> set (elems (map_get h (DeniedRoles P) mode))
      \<longrightarrow> fst (HasPermission anyone h P mode actors) = False)"
proof (intro conjI impI)
  assume "resolve actors [] = Inr names
      \<and> set (elems (map_get h (DeniedRoles P) mode)) \<inter> set names \<noteq> {}"
  then show "HasPermission anyone h P mode actors = (False, [])"
    by (simp add: HasPermission_decision matches_def)
next
  assume w: "anyone \<in> set (elems (map_get h (DeniedRoles P) mode))"
  show "fst (HasPermission anyone h P mode actors) = False"
  proof (cases "resolve actors []")
    case (Inl bad)
    then show ?thesis by (simp add: HasPermission_def)
  next
    case (Inr names)
    with w show ?thesis by (simp add: HasPermission_decision matches_def)
  qed
qed

theorem deny_overrides_allow_witness:
  "resolve [Str ''guest''] [] = Inr [''guest'']
   \<and> set (elems (map_get example_store (DeniedRoles (perms example_store ! 1)) Delete))
        \<inter> set [''guest''] \<noteq> {}
   \<and> ''*'' \<in> set (elems (map_get example_store (DeniedRoles (perms example_store ! 1)) Delete))
   \<and> HasPermission ''*'' example_store (perms example_store ! 1) Delete [Str ''guest'']
       = (False, [])"
  using deny_overrides_allow [where actors = "[Str ''guest'']" and names = "[''guest'']"
      and h = example_store and P = "perms example_store ! 1"
      and mode = Delete and anyone = "''*''"]
  by (simp add: example_perms example_get)

text \<open>
  Claim C8. If some actor is neither a string nor a \<^verbatim>\<open>Roler\<close>, the call returns
  false and prints one diagnostic, whatever the policy holds and whatever the
  other actors are. The function has no fault branch: it always returns.
\<close>

theorem invalid_actor_fails_closed:
  "Other \<in> set actors \<Longrightarrow> HasPermission anyone h P mode actors = (False, [InvalidRole Other])"
  by (simp add: HasPermission_def resolve_invalid)

theorem invalid_actor_fails_closed_witness:
  "Other \<in> set [Str ''viewer'', Roler [''*''], Other, Str ''root'']
   \<and> HasPermission ''*'' example_store (perms example_store ! 0) Read
        [Str ''viewer'', Roler [''*''], Other, Str ''root'']
       = (False, [InvalidRole Other])"
  using invalid_actor_fails_closed [where actors = "[Str ''viewer'', Roler [''*''], Other, Str ''root'']"
      and h = example_store and P = "perms example_store ! 0"
      and mode = Read and anyone = "''*''"]
  by simp

text \<open>
  Claim C2. For actors that resolve to names with no match in the denied entry
  of the action: (a) with no entry at all in the allowed map (a nil map or an
  empty one) the call returns true; (b) with a non-empty allowed map that has no
  key for the action it returns false; (c) with a key for the action it returns
  the outcome of the wildcard-or-exact-match test on that entry.
\<close>

theorem default_allow_whole_map:
  assumes "resolve actors [] = Inr names"
    and "\<not> matches anyone (elems (map_get h (DeniedRoles P) mode)) names"
  shows "(map_len h (AllowedRoles P) = 0 \<longrightarrow> HasPermission anyone h P mode actors = (True, []))
       \<and> (map_len h (AllowedRoles P) \<noteq> 0 \<and> \<not> has_key h (AllowedRoles P) mode
            \<longrightarrow> HasPermission anyone h P mode actors = (False, []))
       \<and> (has_key h (AllowedRoles P) mode
            \<longrightarrow> HasPermission anyone h P mode actors =
                 (matches anyone (elems (map_get h (AllowedRoles P) mode)) names, []))"
proof (intro conjI impI)
  assume "map_len h (AllowedRoles P) = 0"
  with assms show "HasPermission anyone h P mode actors = (True, [])"
    by (simp add: HasPermission_decision)
next
  assume "map_len h (AllowedRoles P) \<noteq> 0 \<and> \<not> has_key h (AllowedRoles P) mode"
  with assms show "HasPermission anyone h P mode actors = (False, [])"
    by (simp add: HasPermission_decision no_key_get matches_def)
next
  assume "has_key h (AllowedRoles P) mode"
  then have "map_len h (AllowedRoles P) \<noteq> 0"
    by (rule has_key_len)
  with assms show "HasPermission anyone h P mode actors =
      (matches anyone (elems (map_get h (AllowedRoles P) mode)) names, [])"
    by (simp add: HasPermission_decision)
qed

theorem default_allow_whole_map_witness:
  "resolve [Str ''editor''] [] = Inr [''editor'']
   \<and> \<not> matches ''*''
         (elems (map_get example_store (DeniedRoles (perms example_store ! 0)) Update)) [''editor'']
   \<and> map_len example_store (AllowedRoles (perms example_store ! 0)) \<noteq> 0
   \<and> \<not> has_key example_store (AllowedRoles (perms example_store ! 0)) Update
   \<and> HasPermission ''*'' example_store (perms example_store ! 0) Update [Str ''editor'']
       = (False, [])
   \<and> \<not> matches ''*''
         (elems (map_get example_store (DeniedRoles (perms example_store ! 1)) Update)) [''editor'']
   \<and> map_len example_store (AllowedRoles (perms example_store ! 1)) = 0
   \<and> HasPermission ''*'' example_store (perms example_store ! 1) Update [Str ''editor'']
       = (True, [])
   \<and> resolve [Roler [''viewer'']] [] = Inr [''viewer'']
   \<and> \<not> matches ''*''
         (elems (map_get example_store (DeniedRoles (perms example_store ! 0)) Read)) [''viewer'']
   \<and> has_key example_store (AllowedRoles (perms example_store ! 0)) Read
   \<and> HasPermission ''*'' example_store (perms example_store ! 0) Read [Roler [''viewer'']]
       = (True, [])"
proof -
  note b = default_allow_whole_map [where actors = "[Str ''editor'']" and names = "[''editor'']"
      and h = example_store and P = "perms example_store ! 0"
      and mode = Update and anyone = "''*''"]
  note a = default_allow_whole_map [where actors = "[Str ''editor'']" and names = "[''editor'']"
      and h = example_store and P = "perms example_store ! 1"
      and mode = Update and anyone = "''*''"]
  note c = default_allow_whole_map [where actors = "[Roler [''viewer'']]" and names = "[''viewer'']"
      and h = example_store and P = "perms example_store ! 0"
      and mode = Read and anyone = "''*''"]
  have r: "resolve [Str ''editor''] [] = Inr [''editor'']"
          "resolve [Roler [''viewer'']] [] = Inr [''viewer'']"
    by simp_all
  have d: "\<not> matches ''*''
         (elems (map_get example_store (DeniedRoles (perms example_store ! 0)) Update)) [''editor'']"
    "\<not> matches ''*''
         (elems (map_get example_store (DeniedRoles (perms example_store ! 1)) Update)) [''editor'']"
    "\<not> matches ''*''
         (elems (map_get example_store (DeniedRoles (perms example_store ! 0)) Read)) [''viewer'']"
    by (simp_all add: example_perms example_get matches_def)
  have k: "map_len example_store (AllowedRoles (perms example_store ! 0)) \<noteq> 0"
    "\<not> has_key example_store (AllowedRoles (perms example_store ! 0)) Update"
    "map_len example_store (AllowedRoles (perms example_store ! 1)) = 0"
    "has_key example_store (AllowedRoles (perms example_store ! 0)) Read"
    by (simp_all add: example_perms example_len example_key)
  have m: "matches ''*''
         (elems (map_get example_store (AllowedRoles (perms example_store ! 0)) Read)) [''viewer'']"
    by (simp add: example_perms example_get matches_def)
  have "HasPermission ''*'' example_store (perms example_store ! 0) Update [Str ''editor'']
       = (False, [])"
    using b r(1) d(1) k(1,2) by blast
  moreover have "HasPermission ''*'' example_store (perms example_store ! 1) Update [Str ''editor'']
       = (True, [])"
    using a r(1) d(2) k(3) by blast
  moreover have "HasPermission ''*'' example_store (perms example_store ! 0) Read [Roler [''viewer'']]
       = (True, [])"
    using c r(2) d(3) k(4) m by simp
  ultimately show ?thesis using r d k by blast
qed

text \<open>
  Claim C1 as stated fails: the wildcard is looked for in the policy's list
  only. On the first policy of the example store (reading allowed to viewers,
  nothing denied for reading), an actor whose only role name is the wildcard is
  refused.
\<close>

theorem actor_side_wildcard_counterexample:
  "resolve [Str ''*''] [] = Inr [''*'']
   \<and> ''*'' \<in> set [''*'']
   \<and> \<not> matches ''*''
         (elems (map_get example_store (DeniedRoles (perms example_store ! 0)) Read)) [''*'']
   \<and> elems (map_get example_store (AllowedRoles (perms example_store ! 0)) Read) = [''viewer'']
   \<and> HasPermission ''*'' example_store (perms example_store ! 0) Read [Str ''*'']
       = (False, [])"
  by (simp add: HasPermission_def example_perms example_get example_len matches_def)

text \<open>
  Claim C1, amended. For actors whose resolved names contain the wildcard and
  have no match in the denied entry, the call returns true exactly when the
  allowed map has no entry at all or the allowed entry of the action holds one
  of the actors' names literally (the wildcard being one of these names).
\<close>

theorem wildcard_on_actor_side_is_literal:
  assumes "resolve actors [] = Inr names"
    and "anyone \<in> set names"
    and "\<not> matches anyone (elems (map_get h (DeniedRoles P) mode)) names"
  shows "HasPermission anyone h P mode actors =
           (map_len h (AllowedRoles P) = 0
            \<or> set (elems (map_get h (AllowedRoles P) mode)) \<inter> set names \<noteq> {}, [])"
  using assms by (auto simp: HasPermission_decision matches_def)

theorem wildcard_on_actor_side_is_literal_witness:
  "resolve [Str ''guest'', Roler [''*'']] [] = Inr [''guest'', ''*'']
   \<and> ''*'' \<in> set [''guest'', ''*'']
   \<and> \<not> matches ''*''
         (elems (map_get example_store (DeniedRoles (perms example_store ! 0)) Read))
         [''guest'', ''*'']
   \<and> HasPermission ''*'' example_store (perms example_store ! 0) Read
        [Str ''guest'', Roler [''*'']]
       = (False, [])"
  using wildcard_on_actor_side_is_literal [where actors = "[Str ''guest'', Roler [''*'']]"
      and names = "[''guest'', ''*'']"
      and h = example_store and P = "perms example_store ! 0"
      and mode = Read and anyone = "''*''"]
  by (simp add: example_perms example_get example_len matches_def)

subsection \<open>Concat\<close>

text \<open>One \<^verbatim>\<open>range\<close> loop: the map \<open>a\<close> of the result is rewritten entry by entry,
  everything else in the store stays.\<close>

lemma map_get_Some: "map_get h (Some a) k = (case DAList.lookup (maps h ! a) k of None \<Rightarrow> NilSlice | Some s \<Rightarrow> s)"
  by (simp add: map_get_def)

lemma appendEntries_char:
  assumes "a < length (maps h)" and "distinct (map fst es)"
  shows "\<exists>m'. appendEntries h (Some a) es = Inr (h\<lparr>maps := (maps h)[a := m']\<rparr>)
             \<and> (\<forall>k. DAList.lookup m' k = merge_entry (DAList.lookup (maps h ! a) k) (map_of es k))"
  using assms
proof (induction es arbitrary: h)
  case Nil
  have "h\<lparr>maps := (maps h)[a := maps h ! a]\<rparr> = h" by simp
  then show ?case
    by (intro exI[of _ "maps h ! a"]) simp
next
  case (Cons e es)
  obtain mode roles where e: "e = (mode, roles)" by (cases e)
  define v where "v = append_slice (map_get h (Some a) mode) (elems roles)"
  define h1 where "h1 = h\<lparr>maps := (maps h)[a := DAList.update mode v (maps h ! a)]\<rparr>"
  have step: "map_set h (Some a) mode v = Inr h1"
    by (simp add: map_set_def h1_def)
  have a1: "a < length (maps h1)" using Cons.prems by (simp add: h1_def)
  have d: "distinct (map fst es)" and fresh: "mode \<notin> fst ` set es"
    using Cons.prems e by auto
  from Cons.IH[OF a1 d] obtain m' where
    run: "appendEntries h1 (Some a) es = Inr (h1\<lparr>maps := (maps h1)[a := m']\<rparr>)" and
    look: "\<And>k. DAList.lookup m' k = merge_entry (DAList.lookup (maps h1 ! a) k) (map_of es k)"
    by blast
  have same: "h1\<lparr>maps := (maps h1)[a := m']\<rparr> = h\<lparr>maps := (maps h)[a := m']\<rparr>"
    by (simp add: h1_def)
  have at: "maps h1 ! a = DAList.update mode v (maps h ! a)"
    using Cons.prems by (simp add: h1_def)
  have none: "map_of es mode = None"
    using fresh by (simp add: map_of_eq_None_iff)
  have "DAList.lookup m' k = merge_entry (DAList.lookup (maps h ! a) k) (map_of (e # es) k)" for k
  proof (cases "k = mode")
    case True
    then show ?thesis
      using look[of mode] none by (simp add: at e v_def map_get_Some)
  next
    case False
    then show ?thesis
      using look[of k] by (simp add: at e)
  qed
  moreover have "appendEntries h (Some a) (e # es) = Inr (h\<lparr>maps := (maps h)[a := m']\<rparr>)"
    using step run same by (simp add: e v_def)
  ultimately show ?case by blast
qed


lemma map_range_ext:
  "ref_ok (length ms) r \<Longrightarrow>
   map_range \<lparr>perms = ps', maps = ms @ extra\<rparr> r = map_range \<lparr>perms = ps, maps = ms\<rparr> r"
  by (auto simp: map_range_def ref_ok_def nth_append split: option.splits)

lemma distinct_map_range: "distinct (map fst (map_range h r))"
  by (simp add: map_range_def split: option.splits)

lemma wf_heap_nth:
  "wf_heap \<lparr>perms = ps, maps = ms\<rparr> \<Longrightarrow> a < length ps \<Longrightarrow>
   ref_ok (length ms) (AllowedRoles (ps ! a)) \<and> ref_ok (length ms) (DeniedRoles (ps ! a))"
  by (simp add: wf_heap_def list_all_length)

lemma appendRoles_fresh:
  assumes wf: "wf_heap \<lparr>perms = ps, maps = ms\<rparr>" and p: "ref_ok (length ps) p"
  shows "\<exists>ma' md'.
           appendRoles \<lparr>perms = ps @ [\<lparr>Role = g, AllowedRoles = Some (length ms),
                                       DeniedRoles = Some (Suc (length ms))\<rparr>],
                        maps = ms @ [ma, md]\<rparr> (length ps) p
           = Inr \<lparr>perms = ps @ [\<lparr>Role = (case p of None \<Rightarrow> g | Some a \<Rightarrow> Role (ps ! a)),
                                 AllowedRoles = Some (length ms),
                                 DeniedRoles = Some (Suc (length ms))\<rparr>],
                  maps = ms @ [ma', md']\<rparr>
         \<and> (\<forall>k. DAList.lookup ma' k =
                  merge_entry (DAList.lookup ma k) (allowed_entry \<lparr>perms = ps, maps = ms\<rparr> p k))
         \<and> (\<forall>k. DAList.lookup md' k =
                  merge_entry (DAList.lookup md k) (denied_entry \<lparr>perms = ps, maps = ms\<rparr> p k))"
proof (cases p)
  case None
  then show ?thesis
    by (simp add: appendRoles_def allowed_entry_def denied_entry_def)
next
  case (Some a)
  with p have a: "a < length ps" by (simp add: ref_ok_def)
  let ?R = "\<lparr>Role = Role (ps ! a), AllowedRoles = Some (length ms),
             DeniedRoles = Some (Suc (length ms))\<rparr>"
  let ?h1 = "\<lparr>perms = ps @ [?R], maps = ms @ [ma, md]\<rparr>"
  from wf_heap_nth[OF wf a]
  have oka: "ref_ok (length ms) (AllowedRoles (ps ! a))"
    and okd: "ref_ok (length ms) (DeniedRoles (ps ! a))" by simp_all
  have rd: "map_range ?h1 (DeniedRoles (ps ! a))
              = map_range \<lparr>perms = ps, maps = ms\<rparr> (DeniedRoles (ps ! a))"
    using map_range_ext[OF okd] .
  from appendEntries_char[of "Suc (length ms)" ?h1
        "map_range \<lparr>perms = ps, maps = ms\<rparr> (DeniedRoles (ps ! a))"]
  obtain md' where
    run1: "appendEntries ?h1 (Some (Suc (length ms)))
             (map_range \<lparr>perms = ps, maps = ms\<rparr> (DeniedRoles (ps ! a)))
           = Inr \<lparr>perms = ps @ [?R], maps = ms @ [ma, md']\<rparr>" and
    look1: "\<And>k. DAList.lookup md' k = merge_entry (DAList.lookup md k)
              (map_of (map_range \<lparr>perms = ps, maps = ms\<rparr> (DeniedRoles (ps ! a))) k)"
    by (auto simp: distinct_map_range list_update_append nth_append)
  let ?h2 = "\<lparr>perms = ps @ [?R], maps = ms @ [ma, md']\<rparr>"
  have ra: "map_range ?h2 (AllowedRoles (ps ! a))
              = map_range \<lparr>perms = ps, maps = ms\<rparr> (AllowedRoles (ps ! a))"
    using map_range_ext[OF oka] .
  from appendEntries_char[of "length ms" ?h2
        "map_range \<lparr>perms = ps, maps = ms\<rparr> (AllowedRoles (ps ! a))"]
  obtain ma' where
    run2: "appendEntries ?h2 (Some (length ms))
             (map_range \<lparr>perms = ps, maps = ms\<rparr> (AllowedRoles (ps ! a)))
           = Inr \<lparr>perms = ps @ [?R], maps = ms @ [ma', md']\<rparr>" and
    look2: "\<And>k. DAList.lookup ma' k = merge_entry (DAList.lookup ma k)
              (map_of (map_range \<lparr>perms = ps, maps = ms\<rparr> (AllowedRoles (ps ! a))) k)"
    by (auto simp: distinct_map_range list_update_append nth_append)
  have "appendRoles \<lparr>perms = ps @ [\<lparr>Role = g, AllowedRoles = Some (length ms),
                                    DeniedRoles = Some (Suc (length ms))\<rparr>],
                     maps = ms @ [ma, md]\<rparr> (length ps) (Some a)
        = Inr \<lparr>perms = ps @ [?R], maps = ms @ [ma', md']\<rparr>"
    using a by (simp add: appendRoles_def Let_def nth_append rd run1 ra run2)
  with look1 look2 Some show ?thesis
    by (auto simp: allowed_entry_def denied_entry_def)
qed

lemma heap_update_both: "(h::heap)\<lparr>perms := ps, maps := ms\<rparr> = \<lparr>perms = ps, maps = ms\<rparr>"
  by (cases h) simp

lemma Concat_char:
  assumes wf: "wf_heap h"
    and self: "ref_ok (length (perms h)) self" and other: "ref_ok (length (perms h)) other"
  shows "\<exists>ma md.
           Concat g h self other
           = Inr (\<lparr>perms = perms h @
                     [\<lparr>Role = (case self of Some a \<Rightarrow> Role (perms h ! a)
                                | None \<Rightarrow> (case other of Some b \<Rightarrow> Role (perms h ! b) | None \<Rightarrow> g)),
                       AllowedRoles = Some (length (maps h)),
                       DeniedRoles = Some (Suc (length (maps h)))\<rparr>],
                   maps = maps h @ [ma, md]\<rparr>, Some (length (perms h)))
         \<and> (\<forall>k. DAList.lookup ma k =
                  merge_entry (merge_entry None (allowed_entry h other k)) (allowed_entry h self k))
         \<and> (\<forall>k. DAList.lookup md k =
                  merge_entry (merge_entry None (denied_entry h other k)) (denied_entry h self k))"
proof -
  have eta: "\<lparr>perms = perms h, maps = maps h\<rparr> = h" by simp
  have wf': "wf_heap \<lparr>perms = perms h, maps = maps h\<rparr>" using wf by (simp only: eta)
  from appendRoles_fresh[OF wf' other, of g DAList.empty DAList.empty, unfolded eta]
  obtain ma1 md1 where
    s1: "appendRoles \<lparr>perms = perms h @ [\<lparr>Role = g, AllowedRoles = Some (length (maps h)),
                                       DeniedRoles = Some (Suc (length (maps h)))\<rparr>],
                        maps = maps h @ [DAList.empty, DAList.empty]\<rparr> (length (perms h)) other
         = Inr \<lparr>perms = perms h @
                   [\<lparr>Role = (case other of None \<Rightarrow> g | Some a \<Rightarrow> Role (perms h ! a)),
                     AllowedRoles = Some (length (maps h)),
                     DeniedRoles = Some (Suc (length (maps h)))\<rparr>],
                 maps = maps h @ [ma1, md1]\<rparr>" and
    a1: "\<And>k. DAList.lookup ma1 k = merge_entry None (allowed_entry h other k)" and
    d1: "\<And>k. DAList.lookup md1 k = merge_entry None (denied_entry h other k)"
    by auto
  from appendRoles_fresh[OF wf' self,
        of "case other of None \<Rightarrow> g | Some a \<Rightarrow> Role (perms h ! a)" ma1 md1, unfolded eta]
  obtain ma2 md2 where
    s2: "appendRoles \<lparr>perms = perms h @
                   [\<lparr>Role = (case other of None \<Rightarrow> g | Some a \<Rightarrow> Role (perms h ! a)),
                     AllowedRoles = Some (length (maps h)),
                     DeniedRoles = Some (Suc (length (maps h)))\<rparr>],
                 maps = maps h @ [ma1, md1]\<rparr> (length (perms h)) self
         = Inr \<lparr>perms = perms h @
                   [\<lparr>Role = (case self of None \<Rightarrow>
                                 (case other of None \<Rightarrow> g | Some a \<Rightarrow> Role (perms h ! a))
                              | Some a \<Rightarrow> Role (perms h ! a)),
                     AllowedRoles = Some (length (maps h)),
                     DeniedRoles = Some (Suc (length (maps h)))\<rparr>],
                 maps = maps h @ [ma2, md2]\<rparr>" and
    a2: "\<And>k. DAList.lookup ma2 k = merge_entry (DAList.lookup ma1 k) (allowed_entry h self k)" and
    d2: "\<And>k. DAList.lookup md2 k = merge_entry (DAList.lookup md1 k) (denied_entry h self k)"
    by auto
  show ?thesis
    by (intro exI[of _ ma2] exI[of _ md2])
       (simp add: Concat_def Let_def heap_update_both s1 s2 a2 d2 a1 d1)
qed

subsection \<open>Allow and Deny\<close>

declare Allow.simps [simp del] Deny.simps [simp del]

lemma append_slice_nonnil: "s \<noteq> NilSlice \<Longrightarrow> append_slice s roles = Slice (elems s @ roles)"
  by (cases s) auto

lemma Allow_single:
  assumes "mode \<noteq> CRUD" and "AllowedRoles (perms h ! a) = Some m" and "m < length (maps h)"
  shows "Allow h (Some a) mode roles
           = Inr (h\<lparr>maps := (maps h)[m := add_roles roles mode (maps h ! m)]\<rparr>, Some a)"
  using assms
  by (subst Allow.simps)
     (auto simp: map_get_def map_set_def add_roles_def append_slice_nonnil split: option.splits)

lemma Allow_nil_map:
  assumes "AllowedRoles (perms h ! a) = None"
  shows "Allow h (Some a) mode roles = Inl NilMapAssign"
proof -
  have s: "mode' \<noteq> CRUD \<Longrightarrow> Allow h (Some a) mode' roles = Inl NilMapAssign" for mode'
    using assms by (subst Allow.simps) (simp add: map_get_def map_set_def)
  show ?thesis
  proof (cases "mode = CRUD")
    case True
    have "Allow h (Some a) Create roles = Inl NilMapAssign"
      by (rule s) (simp add: mode_defs)
    then show ?thesis using True by (subst Allow.simps) simp
  next
    case False
    then show ?thesis by (rule s)
  qed
qed

lemma Allow_nil_receiver: "Allow h None mode roles = Inl NilDeref"
proof -
  have s: "mode' \<noteq> CRUD \<Longrightarrow> Allow h None mode' roles = Inl NilDeref" for mode'
    by (subst Allow.simps) simp
  show ?thesis
  proof (cases "mode = CRUD")
    case True
    have "Allow h None Create roles = Inl NilDeref"
      by (rule s) (simp add: mode_defs)
    then show ?thesis using True by (subst Allow.simps) simp
  next
    case False
    then show ?thesis by (rule s)
  qed
qed

lemma Allow_eq:
  assumes m: "AllowedRoles (perms h ! a) = Some m" and len: "m < length (maps h)"
  shows "Allow h (Some a) mode roles
           = Inr (h\<lparr>maps := (maps h)[m := fold (add_roles roles) (expand mode) (maps h ! m)]\<rparr>, Some a)"
proof (cases "mode = CRUD")
  case False
  then show ?thesis
    using Allow_single[OF False m len] by (simp add: expand_def)
next
  case True
  have step: "Allow (h\<lparr>maps := (maps h)[m := M]\<rparr>) (Some a) mode' roles
                = Inr (h\<lparr>maps := (maps h)[m := add_roles roles mode' M]\<rparr>, Some a)"
    if "mode' \<noteq> CRUD" for mode' M
    using Allow_single[of mode' "h\<lparr>maps := (maps h)[m := M]\<rparr>" a m roles] that m len
    by simp
  have first: "Allow h (Some a) Create roles
                = Inr (h\<lparr>maps := (maps h)[m := add_roles roles Create (maps h ! m)]\<rparr>, Some a)"
    using Allow_single[of Create h a m roles] m len by (simp add: mode_defs)
  have ne: "Update \<noteq> CRUD" "Read \<noteq> CRUD" "Delete \<noteq> CRUD"
    by (simp_all add: mode_defs)
  show ?thesis
    using True
    by (subst Allow.simps) (simp add: first step ne expand_def)
qed

lemma Deny_single:
  assumes "mode \<noteq> CRUD" and "DeniedRoles (perms h ! a) = Some m" and "m < length (maps h)"
  shows "Deny h (Some a) mode roles
           = Inr (h\<lparr>maps := (maps h)[m := add_roles roles mode (maps h ! m)]\<rparr>, Some a)"
  using assms
  by (subst Deny.simps)
     (auto simp: map_get_def map_set_def add_roles_def append_slice_nonnil split: option.splits)

lemma Deny_nil_map:
  assumes "DeniedRoles (perms h ! a) = None"
  shows "Deny h (Some a) mode roles = Inl NilMapAssign"
proof -
  have s: "mode' \<noteq> CRUD \<Longrightarrow> Deny h (Some a) mode' roles = Inl NilMapAssign" for mode'
    using assms by (subst Deny.simps) (simp add: map_get_def map_set_def)
  show ?thesis
  proof (cases "mode = CRUD")
    case True
    have "Deny h (Some a) Create roles = Inl NilMapAssign"
      by (rule s) (simp add: mode_defs)
    then show ?thesis using True by (subst Deny.simps) simp
  next
    case False
    then show ?thesis by (rule s)
  qed
qed

lemma Deny_nil_receiver: "Deny h None mode roles = Inl NilDeref"
proof -
  have s: "mode' \<noteq> CRUD \<Longrightarrow> Deny h None mode' roles = Inl NilDeref" for mode'
    by (subst Deny.simps) simp
  show ?thesis
  proof (cases "mode = CRUD")
    case True
    have "Deny h None Create roles = Inl NilDeref"
      by (rule s) (simp add: mode_defs)
    then show ?thesis using True by (subst Deny.simps) simp
  next
    case False
    then show ?thesis by (rule s)
  qed
qed

lemma Deny_eq:
  assumes m: "DeniedRoles (perms h ! a) = Some m" and len: "m < length (maps h)"
  shows "Deny h (Some a) mode roles
           = Inr (h\<lparr>maps := (maps h)[m := fold (add_roles roles) (expand mode) (maps h ! m)]\<rparr>, Some a)"
proof (cases "mode = CRUD")
  case False
  then show ?thesis
    using Deny_single[OF False m len] by (simp add: expand_def)
next
  case True
  have step: "Deny (h\<lparr>maps := (maps h)[m := M]\<rparr>) (Some a) mode' roles
                = Inr (h\<lparr>maps := (maps h)[m := add_roles roles mode' M]\<rparr>, Some a)"
    if "mode' \<noteq> CRUD" for mode' M
    using Deny_single[of mode' "h\<lparr>maps := (maps h)[m := M]\<rparr>" a m roles] that m len
    by simp
  have first: "Deny h (Some a) Create roles
                = Inr (h\<lparr>maps := (maps h)[m := add_roles roles Create (maps h ! m)]\<rparr>, Some a)"
    using Deny_single[of Create h a m roles] m len by (simp add: mode_defs)
  have ne: "Update \<noteq> CRUD" "Read \<noteq> CRUD" "Delete \<noteq> CRUD"
    by (simp_all add: mode_defs)
  show ?thesis
    using True
    by (subst Deny.simps) (simp add: first step ne expand_def)
qed

lemma allowed_of_entry:
  "allowed_of h p k = elems (case allowed_entry h p k of None \<Rightarrow> NilSlice | Some s \<Rightarrow> s)"
  by (auto simp: allowed_of_def allowed_entry_def map_get_def map_range_def lookup.rep_eq
           split: option.splits)

lemma denied_of_entry:
  "denied_of h p k = elems (case denied_entry h p k of None \<Rightarrow> NilSlice | Some s \<Rightarrow> s)"
  by (auto simp: denied_of_def denied_entry_def map_get_def map_range_def lookup.rep_eq
           split: option.splits)

lemma allowed_key_entry: "allowed_key h p k = (allowed_entry h p k \<noteq> None)"
  by (auto simp: allowed_key_def allowed_entry_def has_key_def map_range_def lookup.rep_eq
           split: option.splits)

lemma denied_key_entry: "denied_key h p k = (denied_entry h p k \<noteq> None)"
  by (auto simp: denied_key_def denied_entry_def has_key_def map_range_def lookup.rep_eq
           split: option.splits)

lemma elems_merge:
  "elems (case merge_entry (merge_entry None e1) e2 of None \<Rightarrow> NilSlice | Some s \<Rightarrow> s)
     = elems (case e1 of None \<Rightarrow> NilSlice | Some s \<Rightarrow> s)
       @ elems (case e2 of None \<Rightarrow> NilSlice | Some s \<Rightarrow> s)"
  by (cases e1; cases e2) (auto split: slice.splits)

lemma key_merge:
  "(\<exists>y. merge_entry (merge_entry None e1) e2 = Some y) = ((\<exists>y. e1 = Some y) \<or> (\<exists>y. e2 = Some y))"
  by (cases e1; cases e2) auto

lemma result_entries:
  "allowed_entry \<lparr>perms = ps @ [\<lparr>Role = g, AllowedRoles = Some (length ms),
                                    DeniedRoles = Some (Suc (length ms))\<rparr>],
                   maps = ms @ [ma, md]\<rparr> (Some (length ps)) k = DAList.lookup ma k"
  "denied_entry \<lparr>perms = ps @ [\<lparr>Role = g, AllowedRoles = Some (length ms),
                                   DeniedRoles = Some (Suc (length ms))\<rparr>],
                  maps = ms @ [ma, md]\<rparr> (Some (length ps)) k = DAList.lookup md k"
proof -
  have "(ms @ [ma, md]) ! Suc (length ms) = md" for ms :: "rolemap list"
    by (metis append.assoc append_Cons append_Nil length_append_singleton nth_append_length)
  then show
    "allowed_entry \<lparr>perms = ps @ [\<lparr>Role = g, AllowedRoles = Some (length ms),
                                    DeniedRoles = Some (Suc (length ms))\<rparr>],
                   maps = ms @ [ma, md]\<rparr> (Some (length ps)) k = DAList.lookup ma k"
    "denied_entry \<lparr>perms = ps @ [\<lparr>Role = g, AllowedRoles = Some (length ms),
                                   DeniedRoles = Some (Suc (length ms))\<rparr>],
                  maps = ms @ [ma, md]\<rparr> (Some (length ps)) k = DAList.lookup md k"
    by (simp_all add: allowed_entry_def denied_entry_def map_range_def lookup.rep_eq)
qed

text \<open>The outcome of Concat through the observers.\<close>

lemma Concat_entries:
  assumes "wf_heap h"
    and "ref_ok (length (perms h)) self" and "ref_ok (length (perms h)) other"
  shows "\<exists>h' ma md.
           Concat g h self other = Inr (h', Some (length (perms h)))
         \<and> perms h' = perms h @
              [\<lparr>Role = (case self of Some a \<Rightarrow> Role (perms h ! a)
                         | None \<Rightarrow> (case other of Some b \<Rightarrow> Role (perms h ! b) | None \<Rightarrow> g)),
                AllowedRoles = Some (length (maps h)),
                DeniedRoles = Some (Suc (length (maps h)))\<rparr>]
         \<and> maps h' = maps h @ [ma, md]
         \<and> (\<forall>k. allowed_entry h' (Some (length (perms h))) k =
                  merge_entry (merge_entry None (allowed_entry h other k)) (allowed_entry h self k))
         \<and> (\<forall>k. denied_entry h' (Some (length (perms h))) k =
                  merge_entry (merge_entry None (denied_entry h other k)) (denied_entry h self k))"
proof -
  from Concat_char[OF assms, of g] obtain ma md where
    c: "Concat g h self other
           = Inr (\<lparr>perms = perms h @
                     [\<lparr>Role = (case self of Some a \<Rightarrow> Role (perms h ! a)
                                | None \<Rightarrow> (case other of Some b \<Rightarrow> Role (perms h ! b) | None \<Rightarrow> g)),
                       AllowedRoles = Some (length (maps h)),
                       DeniedRoles = Some (Suc (length (maps h)))\<rparr>],
                   maps = maps h @ [ma, md]\<rparr>, Some (length (perms h)))" and
    a: "\<And>k. DAList.lookup ma k =
                  merge_entry (merge_entry None (allowed_entry h other k)) (allowed_entry h self k)" and
    d: "\<And>k. DAList.lookup md k =
                  merge_entry (merge_entry None (denied_entry h other k)) (denied_entry h self k)"
    by blast
  show ?thesis
    by (intro exI conjI, rule c) (simp_all add: result_entries a d)
qed


lemma Concat_observed:
  assumes "wf_heap h"
    and "ref_ok (length (perms h)) self" and "ref_ok (length (perms h)) other"
  shows "\<exists>h' r.
           Concat global h self other = Inr (h', Some r)
         \<and> (\<forall>mode.
               denied_of h' (Some r) mode = denied_of h other mode @ denied_of h self mode
             \<and> allowed_of h' (Some r) mode = allowed_of h other mode @ allowed_of h self mode
             \<and> denied_key h' (Some r) mode = (denied_key h other mode \<or> denied_key h self mode)
             \<and> allowed_key h' (Some r) mode = (allowed_key h other mode \<or> allowed_key h self mode))
         \<and> Role (perms h' ! r) =
             (case self of
                Some a \<Rightarrow> Role (perms h ! a)
              | None \<Rightarrow> (case other of Some b \<Rightarrow> Role (perms h ! b) | None \<Rightarrow> global))"
proof -
  from Concat_entries[OF assms, of global] obtain h' where
    c: "Concat global h self other = Inr (h', Some (length (perms h)))" and
    p: "perms h' = perms h @
              [\<lparr>Role = (case self of Some a \<Rightarrow> Role (perms h ! a)
                         | None \<Rightarrow> (case other of Some b \<Rightarrow> Role (perms h ! b) | None \<Rightarrow> global)),
                AllowedRoles = Some (length (maps h)),
                DeniedRoles = Some (Suc (length (maps h)))\<rparr>]" and
    a: "\<And>k. allowed_entry h' (Some (length (perms h))) k =
              merge_entry (merge_entry None (allowed_entry h other k)) (allowed_entry h self k)" and
    d: "\<And>k. denied_entry h' (Some (length (perms h))) k =
              merge_entry (merge_entry None (denied_entry h other k)) (denied_entry h self k)"
    by blast
  have "Role (perms h' ! length (perms h)) =
             (case self of
                Some a \<Rightarrow> Role (perms h ! a)
              | None \<Rightarrow> (case other of Some b \<Rightarrow> Role (perms h ! b) | None \<Rightarrow> global))"
    by (simp add: p)
  with c show ?thesis
    by (intro exI[of _ h'] exI[of _ "length (perms h)"])
       (simp add: allowed_of_entry denied_of_entry allowed_key_entry denied_key_entry
                  a d elems_merge key_merge del: merge_entry.simps)
qed

text \<open>
  Claim C4. In a well-formed store, for every pair of policy pointers (each
  possibly nil), Concat returns a pointer to a policy whose denied entry for
  every mode lists the roles of \<open>other\<close> followed by those of \<open>self\<close>, likewise
  for the allowed entries; a mode is a key of the result exactly when it is a
  key of one of the operands; and the scope is that of \<open>self\<close> if \<open>self\<close> is not
  nil, else that of \<open>other\<close> if it is not nil, else \<open>global\<close>.
\<close>

theorem Concat_joins_rules:
  assumes "wf_heap h"
    and "ref_ok (length (perms h)) self" and "ref_ok (length (perms h)) other"
  shows "\<exists>h' r.
           Concat global h self other = Inr (h', Some r)
         \<and> (\<forall>mode.
               denied_of h' (Some r) mode = denied_of h other mode @ denied_of h self mode
             \<and> allowed_of h' (Some r) mode = allowed_of h other mode @ allowed_of h self mode
             \<and> denied_key h' (Some r) mode = (denied_key h other mode \<or> denied_key h self mode)
             \<and> allowed_key h' (Some r) mode = (allowed_key h other mode \<or> allowed_key h self mode))
         \<and> Role (perms h' ! r) =
             (case self of
                Some a \<Rightarrow> Role (perms h ! a)
              | None \<Rightarrow> (case other of Some b \<Rightarrow> Role (perms h ! b) | None \<Rightarrow> global))"
  using assms by (rule Concat_observed)

theorem Concat_joins_rules_witness:
  "wf_heap example_store
   \<and> ref_ok (length (perms example_store)) (Some 0)
   \<and> ref_ok (length (perms example_store)) (Some 1)
   \<and> (\<exists>h' r.
        Concat (Some 3) example_store (Some 0) (Some 1) = Inr (h', Some r)
      \<and> denied_of h' (Some r) Delete = [''guest'', ''*'', ''intern'']
      \<and> allowed_of h' (Some r) Read = [''viewer'']
      \<and> allowed_key h' (Some r) Read
      \<and> Role (perms h' ! r) = Some 7)"
proof -
  have s: "ref_ok (length (perms example_store)) (Some 0)"
    and o: "ref_ok (length (perms example_store)) (Some 1)"
    by (simp_all add: ref_ok_def example_perms)
  from Concat_joins_rules[OF example_wf s o, of "Some 3"] obtain h' r where
    c: "Concat (Some 3) example_store (Some 0) (Some 1) = Inr (h', Some r)" and
    e: "\<And>mode.
          denied_of h' (Some r) mode
            = denied_of example_store (Some 1) mode @ denied_of example_store (Some 0) mode
        \<and> allowed_of h' (Some r) mode
            = allowed_of example_store (Some 1) mode @ allowed_of example_store (Some 0) mode
        \<and> denied_key h' (Some r) mode
            = (denied_key example_store (Some 1) mode \<or> denied_key example_store (Some 0) mode)
        \<and> allowed_key h' (Some r) mode
            = (allowed_key example_store (Some 1) mode \<or> allowed_key example_store (Some 0) mode)" and
    g: "Role (perms h' ! r) = Role (perms example_store ! 0)"
    by auto
  have "denied_of h' (Some r) Delete = [''guest'', ''*'', ''intern'']"
    using e[of Delete] by (simp add: denied_of_def example_perms example_get)
  moreover have "allowed_of h' (Some r) Read = [''viewer'']"
    using e[of Read] by (simp add: allowed_of_def example_perms example_get)
  moreover have "allowed_key h' (Some r) Read"
    using e[of Read] by (simp add: allowed_key_def example_perms example_key)
  moreover have "Role (perms h' ! r) = Some 7"
    using g by (simp add: example_perms)
  ultimately show ?thesis using example_wf s o c by blast
qed

text \<open>
  Claim C6. For every pair of policy pointers \<open>P\<close> and \<open>Q\<close>, every mode and every
  role name: the role is in the allowed (denied) list of Concat of \<open>P\<close> with \<open>Q\<close>
  exactly when it is in that of Concat of \<open>Q\<close> with \<open>P\<close>. The scope is the one of
  the receiver in each case.
\<close>

theorem Concat_membership_symmetric:
  assumes "wf_heap h"
    and "ref_ok (length (perms h)) P" and "ref_ok (length (perms h)) Q"
  shows "\<exists>h1 r1 h2 r2.
           Concat global h P Q = Inr (h1, Some r1)
         \<and> Concat global h Q P = Inr (h2, Some r2)
         \<and> (\<forall>mode role.
               (role \<in> set (allowed_of h1 (Some r1) mode)) = (role \<in> set (allowed_of h2 (Some r2) mode))
             \<and> (role \<in> set (denied_of h1 (Some r1) mode)) = (role \<in> set (denied_of h2 (Some r2) mode)))
         \<and> (\<forall>a. P = Some a \<longrightarrow> Role (perms h1 ! r1) = Role (perms h ! a))
         \<and> (\<forall>b. Q = Some b \<longrightarrow> Role (perms h2 ! r2) = Role (perms h ! b))"
proof -
  from Concat_observed[OF assms(1) assms(2) assms(3), of global] obtain h1 r1 where
    c1: "Concat global h P Q = Inr (h1, Some r1)" and
    e1: "\<And>mode. denied_of h1 (Some r1) mode = denied_of h Q mode @ denied_of h P mode
             \<and> allowed_of h1 (Some r1) mode = allowed_of h Q mode @ allowed_of h P mode" and
    g1: "Role (perms h1 ! r1) =
           (case P of Some a \<Rightarrow> Role (perms h ! a)
            | None \<Rightarrow> (case Q of Some b \<Rightarrow> Role (perms h ! b) | None \<Rightarrow> global))"
    by blast
  from Concat_observed[OF assms(1) assms(3) assms(2), of global] obtain h2 r2 where
    c2: "Concat global h Q P = Inr (h2, Some r2)" and
    e2: "\<And>mode. denied_of h2 (Some r2) mode = denied_of h P mode @ denied_of h Q mode
             \<and> allowed_of h2 (Some r2) mode = allowed_of h P mode @ allowed_of h Q mode" and
    g2: "Role (perms h2 ! r2) =
           (case Q of Some a \<Rightarrow> Role (perms h ! a)
            | None \<Rightarrow> (case P of Some b \<Rightarrow> Role (perms h ! b) | None \<Rightarrow> global))"
    by blast
  have "(role \<in> set (allowed_of h1 (Some r1) mode)) = (role \<in> set (allowed_of h2 (Some r2) mode))
      \<and> (role \<in> set (denied_of h1 (Some r1) mode)) = (role \<in> set (denied_of h2 (Some r2) mode))"
    for mode role
    using e1[of mode] e2[of mode] by auto
  moreover have "\<forall>a. P = Some a \<longrightarrow> Role (perms h1 ! r1) = Role (perms h ! a)"
    using g1 by simp
  moreover have "\<forall>b. Q = Some b \<longrightarrow> Role (perms h2 ! r2) = Role (perms h ! b)"
    using g2 by simp
  ultimately show ?thesis
    by (intro exI[of _ h1] exI[of _ r1] exI[of _ h2] exI[of _ r2] conjI allI)
       (simp_all add: c1 c2)
qed

theorem Concat_membership_symmetric_witness:
  "wf_heap example_store
   \<and> ref_ok (length (perms example_store)) (Some 0)
   \<and> ref_ok (length (perms example_store)) (Some 1)
   \<and> (\<exists>h1 r1 h2 r2.
         Concat None example_store (Some 0) (Some 1) = Inr (h1, Some r1)
       \<and> Concat None example_store (Some 1) (Some 0) = Inr (h2, Some r2)
       \<and> (''guest'' \<in> set (denied_of h1 (Some r1) Delete))
           = (''guest'' \<in> set (denied_of h2 (Some r2) Delete))
       \<and> (''viewer'' \<in> set (allowed_of h1 (Some r1) Read))
           = (''viewer'' \<in> set (allowed_of h2 (Some r2) Read))
       \<and> Role (perms h1 ! r1) = Some 7
       \<and> Role (perms h2 ! r2) = Some 9)"
proof -
  have s: "ref_ok (length (perms example_store)) (Some 0)"
    and o: "ref_ok (length (perms example_store)) (Some 1)"
    by (simp_all add: ref_ok_def example_perms)
  from Concat_membership_symmetric[OF example_wf s o, of None] obtain h1 r1 h2 r2 where
    c: "Concat None example_store (Some 0) (Some 1) = Inr (h1, Some r1)"
       "Concat None example_store (Some 1) (Some 0) = Inr (h2, Some r2)" and
    e: "\<And>mode role.
          (role \<in> set (allowed_of h1 (Some r1) mode)) = (role \<in> set (allowed_of h2 (Some r2) mode))
        \<and> (role \<in> set (denied_of h1 (Some r1) mode)) = (role \<in> set (denied_of h2 (Some r2) mode))" and
    g: "Role (perms h1 ! r1) = Role (perms example_store ! 0)"
       "Role (perms h2 ! r2) = Role (perms example_store ! 1)"
    by auto
  have "Role (perms h1 ! r1) = Some 7" "Role (perms h2 ! r2) = Some 9"
    using g by (simp_all add: example_perms)
  with c e[where mode = Delete and role = "''guest''"] e[where mode = Read and role = "''viewer''"]
    example_wf s o
  show ?thesis
    by blast
qed

text \<open>
  Claim C7. Concat writes to no object that existed before the call: every
  policy struct and every map of the store is as before. The result is a new
  struct whose two maps are new and distinct. With a nil operand on one side,
  the entries of the other side pass into the result: same role lists, same keys.
\<close>

theorem Concat_leaves_operands:
  assumes "wf_heap h"
    and "ref_ok (length (perms h)) self" and "ref_ok (length (perms h)) other"
  shows "\<exists>h' r ar dr.
           Concat global h self other = Inr (h', Some r)
         \<and> (\<forall>a < length (perms h). perms h' ! a = perms h ! a)
         \<and> (\<forall>b < length (maps h). maps h' ! b = maps h ! b)
         \<and> length (perms h) \<le> r \<and> r < length (perms h')
         \<and> AllowedRoles (perms h' ! r) = Some ar \<and> DeniedRoles (perms h' ! r) = Some dr
         \<and> ar \<noteq> dr
         \<and> length (maps h) \<le> ar \<and> ar < length (maps h')
         \<and> length (maps h) \<le> dr \<and> dr < length (maps h')
         \<and> (other = None \<longrightarrow>
              (\<forall>mode. allowed_of h' (Some r) mode = allowed_of h self mode
                    \<and> denied_of h' (Some r) mode = denied_of h self mode
                    \<and> allowed_key h' (Some r) mode = allowed_key h self mode
                    \<and> denied_key h' (Some r) mode = denied_key h self mode))
         \<and> (self = None \<longrightarrow>
              (\<forall>mode. allowed_of h' (Some r) mode = allowed_of h other mode
                    \<and> denied_of h' (Some r) mode = denied_of h other mode
                    \<and> allowed_key h' (Some r) mode = allowed_key h other mode
                    \<and> denied_key h' (Some r) mode = denied_key h other mode))"
proof -
  from Concat_entries[OF assms, of global] obtain h' ma md where
    c: "Concat global h self other = Inr (h', Some (length (perms h)))" and
    p: "perms h' = perms h @
              [\<lparr>Role = (case self of Some a \<Rightarrow> Role (perms h ! a)
                         | None \<Rightarrow> (case other of Some b \<Rightarrow> Role (perms h ! b) | None \<Rightarrow> global)),
                AllowedRoles = Some (length (maps h)),
                DeniedRoles = Some (Suc (length (maps h)))\<rparr>]" and
    m: "maps h' = maps h @ [ma, md]" and
    a: "\<And>k. allowed_entry h' (Some (length (perms h))) k =
              merge_entry (merge_entry None (allowed_entry h other k)) (allowed_entry h self k)" and
    d: "\<And>k. denied_entry h' (Some (length (perms h))) k =
              merge_entry (merge_entry None (denied_entry h other k)) (denied_entry h self k)"
    by blast
  have none: "allowed_of h None k = []" "denied_of h None k = []"
             "allowed_key h None k = False" "denied_key h None k = False" for k
    by (simp_all add: allowed_of_def denied_of_def allowed_key_def denied_key_def)
  have obs: "denied_of h' (Some (length (perms h))) mode = denied_of h other mode @ denied_of h self mode
           \<and> allowed_of h' (Some (length (perms h))) mode = allowed_of h other mode @ allowed_of h self mode
           \<and> denied_key h' (Some (length (perms h))) mode = (denied_key h other mode \<or> denied_key h self mode)
           \<and> allowed_key h' (Some (length (perms h))) mode = (allowed_key h other mode \<or> allowed_key h self mode)"
    for mode
    by (simp add: allowed_of_entry denied_of_entry allowed_key_entry denied_key_entry
                  a d elems_merge key_merge del: merge_entry.simps)
  have frame: "\<forall>a < length (perms h). perms h' ! a = perms h ! a"
              "\<forall>b < length (maps h). maps h' ! b = maps h ! b"
    by (simp_all add: p m nth_append)
  have fresh: "length (perms h) \<le> length (perms h)" "length (perms h) < length (perms h')"
    "AllowedRoles (perms h' ! length (perms h)) = Some (length (maps h))"
    "DeniedRoles (perms h' ! length (perms h)) = Some (Suc (length (maps h)))"
    "length (maps h) \<noteq> Suc (length (maps h))"
    "length (maps h) \<le> length (maps h)" "length (maps h) < length (maps h')"
    "length (maps h) \<le> Suc (length (maps h))" "Suc (length (maps h)) < length (maps h')"
    by (simp_all add: p m)
  have id1: "other = None \<longrightarrow>
              (\<forall>mode. allowed_of h' (Some (length (perms h))) mode = allowed_of h self mode
                    \<and> denied_of h' (Some (length (perms h))) mode = denied_of h self mode
                    \<and> allowed_key h' (Some (length (perms h))) mode = allowed_key h self mode
                    \<and> denied_key h' (Some (length (perms h))) mode = denied_key h self mode)"
    using obs by (simp add: none)
  have id2: "self = None \<longrightarrow>
              (\<forall>mode. allowed_of h' (Some (length (perms h))) mode = allowed_of h other mode
                    \<and> denied_of h' (Some (length (perms h))) mode = denied_of h other mode
                    \<and> allowed_key h' (Some (length (perms h))) mode = allowed_key h other mode
                    \<and> denied_key h' (Some (length (perms h))) mode = denied_key h other mode)"
    using obs by (simp add: none)
  show ?thesis
    by (intro exI[of _ h'] exI[of _ "length (perms h)"] exI[of _ "length (maps h)"]
          exI[of _ "Suc (length (maps h))"] conjI)
       (rule c frame fresh id1 id2)+
qed

theorem Concat_leaves_operands_witness:
  "wf_heap example_store
   \<and> ref_ok (length (perms example_store)) (Some 0)
   \<and> ref_ok (length (perms example_store)) None
   \<and> (\<exists>h' r ar dr.
         Concat None example_store (Some 0) None = Inr (h', Some r)
       \<and> perms h' ! 0 = perms example_store ! 0
       \<and> perms h' ! 1 = perms example_store ! 1
       \<and> perms h' ! 2 = perms example_store ! 2
       \<and> maps h' ! 0 = maps example_store ! 0
       \<and> maps h' ! 1 = maps example_store ! 1
       \<and> maps h' ! 2 = maps example_store ! 2
       \<and> 3 \<le> r
       \<and> AllowedRoles (perms h' ! r) = Some ar \<and> DeniedRoles (perms h' ! r) = Some dr
       \<and> 3 \<le> ar \<and> 3 \<le> dr \<and> ar \<noteq> dr
       \<and> allowed_of h' (Some r) Read = [''viewer'']
       \<and> denied_of h' (Some r) Delete = [''intern''])
   \<and> (\<exists>h' r. Concat None example_store None (Some 0) = Inr (h', Some r)
       \<and> allowed_of h' (Some r) Read = [''viewer'']
       \<and> denied_of h' (Some r) Delete = [''intern''])"
proof -
  have s: "ref_ok (length (perms example_store)) (Some 0)"
    and o: "ref_ok (length (perms example_store)) None"
    by (simp_all add: ref_ok_def example_perms)
  from Concat_leaves_operands[OF example_wf o s, of None] obtain h2 r2 where
    c2: "Concat None example_store None (Some 0) = Inr (h2, Some r2)" and
    i2: "\<And>mode. allowed_of h2 (Some r2) mode = allowed_of example_store (Some 0) mode
              \<and> denied_of h2 (Some r2) mode = denied_of example_store (Some 0) mode"
    by auto
  have "allowed_of h2 (Some r2) Read = [''viewer'']"
    using i2[of Read] by (simp add: allowed_of_def example_perms example_get)
  moreover have "denied_of h2 (Some r2) Delete = [''intern'']"
    using i2[of Delete] by (simp add: denied_of_def example_perms example_get)
  ultimately have second: "\<exists>h' r. Concat None example_store None (Some 0) = Inr (h', Some r)
       \<and> allowed_of h' (Some r) Read = [''viewer'']
       \<and> denied_of h' (Some r) Delete = [''intern'']"
    using c2 by blast
  from Concat_leaves_operands[OF example_wf s o, of None] obtain h' r ar dr where
    c: "Concat None example_store (Some 0) None = Inr (h', Some r)" and
    fp: "\<And>a. a < length (perms example_store) \<Longrightarrow> perms h' ! a = perms example_store ! a" and
    fm: "\<And>b. b < length (maps example_store) \<Longrightarrow> maps h' ! b = maps example_store ! b" and
    fr: "length (perms example_store) \<le> r" "AllowedRoles (perms h' ! r) = Some ar"
        "DeniedRoles (perms h' ! r) = Some dr" "ar \<noteq> dr"
        "length (maps example_store) \<le> ar" "length (maps example_store) \<le> dr" and
    i: "\<And>mode. allowed_of h' (Some r) mode = allowed_of example_store (Some 0) mode
              \<and> denied_of h' (Some r) mode = denied_of example_store (Some 0) mode"
    by auto
  have "perms h' ! 0 = perms example_store ! 0" "perms h' ! 1 = perms example_store ! 1"
       "perms h' ! 2 = perms example_store ! 2"
    using fp[of 0] fp[of 1] fp[of 2] by (simp_all add: example_perms)
  moreover have "maps h' ! 0 = maps example_store ! 0" "maps h' ! 1 = maps example_store ! 1"
       "maps h' ! 2 = maps example_store ! 2"
    using fm[of 0] fm[of 1] fm[of 2] by (simp_all add: example_maps)
  moreover have "3 \<le> r" "3 \<le> ar" "3 \<le> dr"
    using fr by (simp_all add: example_perms example_maps)
  moreover have "allowed_of h' (Some r) Read = [''viewer'']"
    using i[of Read] by (simp add: allowed_of_def example_perms example_get)
  moreover have "denied_of h' (Some r) Delete = [''intern'']"
    using i[of Delete] by (simp add: denied_of_def example_perms example_get)
  ultimately have first: "\<exists>h' r ar dr.
         Concat None example_store (Some 0) None = Inr (h', Some r)
       \<and> perms h' ! 0 = perms example_store ! 0
       \<and> perms h' ! 1 = perms example_store ! 1
       \<and> perms h' ! 2 = perms example_store ! 2
       \<and> maps h' ! 0 = maps example_store ! 0
       \<and> maps h' ! 1 = maps example_store ! 1
       \<and> maps h' ! 2 = maps example_store ! 2
       \<and> 3 \<le> r
       \<and> AllowedRoles (perms h' ! r) = Some ar \<and> DeniedRoles (perms h' ! r) = Some dr
       \<and> 3 \<le> ar \<and> 3 \<le> dr \<and> ar \<noteq> dr
       \<and> allowed_of h' (Some r) Read = [''viewer'']
       \<and> denied_of h' (Some r) Delete = [''intern'']"
    using c fr(2,3,4) by blast
  show ?thesis
    by (intro conjI) (rule example_wf s o first second)+
qed

subsection \<open>The builder calls\<close>

lemma lookup_add_roles:
  "DAList.lookup (add_roles roles mode m) k =
     (if k = mode
      then Some (Slice (elems (case DAList.lookup m mode of None \<Rightarrow> NilSlice | Some s \<Rightarrow> s) @ roles))
      else DAList.lookup m k)"
  by (simp add: add_roles_def lookup_update)

lemma lookup_fold_add_roles:
  "distinct ks \<Longrightarrow>
   DAList.lookup (fold (add_roles roles) ks m) k =
     (if k \<in> set ks
      then Some (Slice (elems (case DAList.lookup m k of None \<Rightarrow> NilSlice | Some s \<Rightarrow> s) @ roles))
      else DAList.lookup m k)"
  by (induction ks arbitrary: m) (auto simp: lookup_add_roles)

lemma distinct_expand: "distinct (expand mode)"
  by (simp add: expand_def mode_defs)

lemma CRUD_not_expanded: "CRUD \<notin> set (expand mode)"
  by (simp add: expand_def mode_defs)

text \<open>What a call of Allow on an initialized map does, through the observers.\<close>

lemma Allow_observed:
  assumes m: "AllowedRoles (perms h ! a) = Some m" and len: "m < length (maps h)"
  shows "\<exists>h'. Allow h (Some a) mode roles = Inr (h', Some a)
           \<and> perms h' = perms h \<and> length (maps h') = length (maps h)
           \<and> (\<forall>b. b \<noteq> m \<longrightarrow> maps h' ! b = maps h ! b)
           \<and> (\<forall>k. DAList.lookup (maps h' ! m) k =
                   (if k \<in> set (expand mode)
                    then Some (Slice (elems (map_get h (Some m) k) @ roles))
                    else DAList.lookup (maps h ! m) k))"
  using len
  by (simp add: Allow_eq[OF m len] lookup_fold_add_roles distinct_expand map_get_def)

lemma Deny_observed:
  assumes m: "DeniedRoles (perms h ! a) = Some m" and len: "m < length (maps h)"
  shows "\<exists>h'. Deny h (Some a) mode roles = Inr (h', Some a)
           \<and> perms h' = perms h \<and> length (maps h') = length (maps h)
           \<and> (\<forall>b. b \<noteq> m \<longrightarrow> maps h' ! b = maps h ! b)
           \<and> (\<forall>k. DAList.lookup (maps h' ! m) k =
                   (if k \<in> set (expand mode)
                    then Some (Slice (elems (map_get h (Some m) k) @ roles))
                    else DAList.lookup (maps h ! m) k))"
  using len
  by (simp add: Deny_eq[OF m len] lookup_fold_add_roles distinct_expand map_get_def)


lemma Allow_keeps_CRUD:
  assumes "wf_heap h" and "ref_ok (length (perms h)) p"
    and "Allow h p mode roles = Inr (h', p')"
  shows "p' = p \<and> perms h' = perms h \<and> length (maps h') = length (maps h)
         \<and> (\<forall>b. DAList.lookup (maps h' ! b) CRUD = DAList.lookup (maps h ! b) CRUD)"
proof (cases p)
  case None
  with assms(3) show ?thesis by (simp add: Allow_nil_receiver)
next
  case (Some a)
  with assms(2) have a: "a < length (perms h)" by (simp add: ref_ok_def)
  show ?thesis
  proof (cases "AllowedRoles (perms h ! a)")
    case None
    with assms(3) Some show ?thesis by (simp add: Allow_nil_map)
  next
    case (Some m)
    with assms(1) a have len: "m < length (maps h)"
      by (auto simp: wf_heap_def list_all_length ref_ok_def)
    from Allow_observed[OF Some len, of mode roles] assms(3) \<open>p = Some a\<close>
    have e: "p' = p" "perms h' = perms h" "length (maps h') = length (maps h)"
      "\<And>b. b \<noteq> m \<Longrightarrow> maps h' ! b = maps h ! b"
      "DAList.lookup (maps h' ! m) CRUD = DAList.lookup (maps h ! m) CRUD"
      by (auto simp: CRUD_not_expanded)
    have "DAList.lookup (maps h' ! b) CRUD = DAList.lookup (maps h ! b) CRUD" for b
      using e(4)[of b] e(5) by (cases "b = m") simp_all
    with e show ?thesis by simp
  qed
qed

lemma Deny_keeps_CRUD:
  assumes "wf_heap h" and "ref_ok (length (perms h)) p"
    and "Deny h p mode roles = Inr (h', p')"
  shows "p' = p \<and> perms h' = perms h \<and> length (maps h') = length (maps h)
         \<and> (\<forall>b. DAList.lookup (maps h' ! b) CRUD = DAList.lookup (maps h ! b) CRUD)"
proof (cases p)
  case None
  with assms(3) show ?thesis by (simp add: Deny_nil_receiver)
next
  case (Some a)
  with assms(2) have a: "a < length (perms h)" by (simp add: ref_ok_def)
  show ?thesis
  proof (cases "DeniedRoles (perms h ! a)")
    case None
    with assms(3) Some show ?thesis by (simp add: Deny_nil_map)
  next
    case (Some m)
    with assms(1) a have len: "m < length (maps h)"
      by (auto simp: wf_heap_def list_all_length ref_ok_def)
    from Deny_observed[OF Some len, of mode roles] assms(3) \<open>p = Some a\<close>
    have e: "p' = p" "perms h' = perms h" "length (maps h') = length (maps h)"
      "\<And>b. b \<noteq> m \<Longrightarrow> maps h' ! b = maps h ! b"
      "DAList.lookup (maps h' ! m) CRUD = DAList.lookup (maps h ! m) CRUD"
      by (auto simp: CRUD_not_expanded)
    have "DAList.lookup (maps h' ! b) CRUD = DAList.lookup (maps h ! b) CRUD" for b
      using e(4)[of b] e(5) by (cases "b = m") simp_all
    with e show ?thesis by simp
  qed
qed

lemma wf_heap_cong: "perms h' = perms h \<Longrightarrow> length (maps h') = length (maps h) \<Longrightarrow> wf_heap h' = wf_heap h"
  by (simp add: wf_heap_def)

lemma builder_keeps_CRUD:
  assumes "wf_heap h" and "ref_ok (length (perms h)) p"
    and "builder h p cs = Inr (h', p')"
  shows "p' = p \<and> perms h' = perms h
         \<and> (\<forall>b. DAList.lookup (maps h' ! b) CRUD = DAList.lookup (maps h ! b) CRUD)"
  using assms
proof (induction cs arbitrary: h p)
  case Nil
  then show ?case by simp
next
  case (Cons c cs)
  have "\<exists>h1 p1. p1 = p \<and> perms h1 = perms h \<and> length (maps h1) = length (maps h)
          \<and> (\<forall>b. DAList.lookup (maps h1 ! b) CRUD = DAList.lookup (maps h ! b) CRUD)
          \<and> builder h1 p1 cs = Inr (h', p')"
  proof (cases c)
    case (AllowCall mode roles)
    show ?thesis
    proof (cases "Allow h p mode roles")
      case (Inl e)
      with Cons.prems(3) AllowCall show ?thesis by simp
    next
      case (Inr x)
      obtain h1 p1 where x: "x = (h1, p1)" by (cases x)
      have "builder h1 p1 cs = Inr (h', p')"
        using Cons.prems(3) AllowCall Inr x by simp
      with Allow_keeps_CRUD[OF Cons.prems(1,2) Inr[unfolded x]] show ?thesis by blast
    qed
  next
    case (DenyCall mode roles)
    show ?thesis
    proof (cases "Deny h p mode roles")
      case (Inl e)
      with Cons.prems(3) DenyCall show ?thesis by simp
    next
      case (Inr x)
      obtain h1 p1 where x: "x = (h1, p1)" by (cases x)
      have "builder h1 p1 cs = Inr (h', p')"
        using Cons.prems(3) DenyCall Inr x by simp
      with Deny_keeps_CRUD[OF Cons.prems(1,2) Inr[unfolded x]] show ?thesis by blast
    qed
  qed
  then obtain h1 p1 where
    k: "p1 = p" "perms h1 = perms h" "length (maps h1) = length (maps h)"
       "\<And>b. DAList.lookup (maps h1 ! b) CRUD = DAList.lookup (maps h ! b) CRUD" and
    r: "builder h1 p1 cs = Inr (h', p')"
    by blast
  have w1: "wf_heap h1" using Cons.prems(1) wf_heap_cong[OF k(2) k(3)] by simp
  have o1: "ref_ok (length (perms h1)) p1" using Cons.prems(2) k(1,2) by simp
  from Cons.IH[OF w1 o1 r]
  have i: "p' = p1" "perms h' = perms h1"
       "\<And>b. DAList.lookup (maps h' ! b) CRUD = DAList.lookup (maps h1 ! b) CRUD"
    by simp_all
  show ?case
    by (simp add: i k)
qed

lemma sum_eta: "(case x of Inl e \<Rightarrow> Inl e | Inr y \<Rightarrow> Inr y) = x"
  by (cases x) auto

text \<open>
  Claim C5. A call of Allow with the mode CRUD is the chain of the four calls
  with Create, Update, Read and Delete, in this order, on the same roles: same
  final store, or the same fault. Likewise for Deny. No chain of builder calls
  changes whether CRUD is a key of a map: a policy without the key never gets it.
\<close>

theorem CRUD_is_the_four_calls:
  "Allow h p CRUD roles =
     builder h p [AllowCall Create roles, AllowCall Update roles,
                  AllowCall Read roles, AllowCall Delete roles]
   \<and> Deny h p CRUD roles =
     builder h p [DenyCall Create roles, DenyCall Update roles,
                  DenyCall Read roles, DenyCall Delete roles]
   \<and> (wf_heap h \<and> ref_ok (length (perms h)) p \<and> builder h p cs = Inr (h', p')
        \<longrightarrow> allowed_key h' p' CRUD = allowed_key h p CRUD
          \<and> denied_key h' p' CRUD = denied_key h p CRUD
          \<and> (\<forall>r. has_key h' r CRUD = has_key h r CRUD))"
proof (intro conjI impI)
  show "Allow h p CRUD roles =
     builder h p [AllowCall Create roles, AllowCall Update roles,
                  AllowCall Read roles, AllowCall Delete roles]"
    by (subst Allow.simps) (simp add: sum_eta cong: sum.case_cong prod.case_cong)
  show "Deny h p CRUD roles =
     builder h p [DenyCall Create roles, DenyCall Update roles,
                  DenyCall Read roles, DenyCall Delete roles]"
    by (subst Deny.simps) (simp add: sum_eta cong: sum.case_cong prod.case_cong)
next
  assume "wf_heap h \<and> ref_ok (length (perms h)) p \<and> builder h p cs = Inr (h', p')"
  then have k: "p' = p" "perms h' = perms h"
      "\<And>b. DAList.lookup (maps h' ! b) CRUD = DAList.lookup (maps h ! b) CRUD"
    using builder_keeps_CRUD[of h p cs h' p'] by simp_all
  have r: "has_key h' r CRUD = has_key h r CRUD" for r
    by (simp add: has_key_def k(3) split: option.splits)
  then show "allowed_key h' p' CRUD = allowed_key h p CRUD"
    by (simp add: allowed_key_def k split: option.splits)
  from r show "denied_key h' p' CRUD = denied_key h p CRUD"
    by (simp add: denied_key_def k split: option.splits)
  from r show "\<forall>r. has_key h' r CRUD = has_key h r CRUD" by simp
qed

theorem CRUD_is_the_four_calls_witness:
  "wf_heap example_store
   \<and> ref_ok (length (perms example_store)) (Some 0)
   \<and> (\<exists>h'. builder example_store (Some 0)
               [AllowCall CRUD [''editor''], DenyCall CRUD [''intern'']] = Inr (h', Some 0)
          \<and> allowed_key h' (Some 0) CRUD = False
          \<and> denied_key h' (Some 0) CRUD = False)"
proof -
  have o: "ref_ok (length (perms example_store)) (Some 0)"
    by (simp add: ref_ok_def example_perms)
  have "\<exists>h'. builder example_store (Some 0)
               [AllowCall CRUD [''editor''], DenyCall CRUD [''intern'']] = Inr (h', Some 0)"
    by (simp add: Allow.simps Deny.simps mode_defs map_get_def map_set_def example_store_def)
  then obtain h' where
    b: "builder example_store (Some 0)
          [AllowCall CRUD [''editor''], DenyCall CRUD [''intern'']] = Inr (h', Some 0)"
    by blast
  have "allowed_key h' (Some 0) CRUD = allowed_key example_store (Some 0) CRUD
      \<and> denied_key h' (Some 0) CRUD = denied_key example_store (Some 0) CRUD"
    using CRUD_is_the_four_calls[of example_store "Some 0" "[]"
            "[AllowCall CRUD [''editor''], DenyCall CRUD [''intern'']]" h' "Some 0"]
          example_wf o b
    by blast
  moreover have "allowed_key example_store (Some 0) CRUD = False"
    "denied_key example_store (Some 0) CRUD = False"
    by (simp_all add: allowed_key_def denied_key_def example_perms example_key)
  ultimately show ?thesis using example_wf o b by simp
qed

lemma Allow_effect:
  assumes m: "AllowedRoles (perms h ! a) = Some m" and len: "m < length (maps h)"
  shows "\<exists>h'. Allow h (Some a) mode roles = Inr (h', Some a)
           \<and> (\<forall>k. allowed_of h' (Some a) k =
                     allowed_of h (Some a) k @ (if k \<in> set (expand mode) then roles else []))
           \<and> (\<forall>k. allowed_key h' (Some a) k = (allowed_key h (Some a) k \<or> k \<in> set (expand mode)))"
proof -
  from Allow_observed[OF m len, of mode roles] obtain h' where
    r: "Allow h (Some a) mode roles = Inr (h', Some a)" and
    p: "perms h' = perms h" and
    l: "\<And>k. DAList.lookup (maps h' ! m) k =
                   (if k \<in> set (expand mode)
                    then Some (Slice (elems (map_get h (Some m) k) @ roles))
                    else DAList.lookup (maps h ! m) k)"
    by blast
  have "allowed_of h' (Some a) k =
          allowed_of h (Some a) k @ (if k \<in> set (expand mode) then roles else [])" for k
    by (simp add: allowed_of_def p m map_get_def l)
  moreover have "allowed_key h' (Some a) k = (allowed_key h (Some a) k \<or> k \<in> set (expand mode))" for k
    by (simp add: allowed_key_def has_key_def p m l)
  ultimately show ?thesis using r by blast
qed

lemma Deny_effect:
  assumes m: "DeniedRoles (perms h ! a) = Some m" and len: "m < length (maps h)"
  shows "\<exists>h'. Deny h (Some a) mode roles = Inr (h', Some a)
           \<and> (\<forall>k. denied_of h' (Some a) k =
                     denied_of h (Some a) k @ (if k \<in> set (expand mode) then roles else []))
           \<and> (\<forall>k. denied_key h' (Some a) k = (denied_key h (Some a) k \<or> k \<in> set (expand mode)))"
proof -
  from Deny_observed[OF m len, of mode roles] obtain h' where
    r: "Deny h (Some a) mode roles = Inr (h', Some a)" and
    p: "perms h' = perms h" and
    l: "\<And>k. DAList.lookup (maps h' ! m) k =
                   (if k \<in> set (expand mode)
                    then Some (Slice (elems (map_get h (Some m) k) @ roles))
                    else DAList.lookup (maps h ! m) k)"
    by blast
  have "denied_of h' (Some a) k =
          denied_of h (Some a) k @ (if k \<in> set (expand mode) then roles else [])" for k
    by (simp add: denied_of_def p m map_get_def l)
  moreover have "denied_key h' (Some a) k = (denied_key h (Some a) k \<or> k \<in> set (expand mode))" for k
    by (simp add: denied_key_def has_key_def p m l)
  ultimately show ?thesis using r by blast
qed

lemma Concat_result_initialized:
  assumes "wf_heap h"
    and "ref_ok (length (perms h)) self" and "ref_ok (length (perms h)) other"
  shows "\<exists>h' r. Concat global h self other = Inr (h', Some r)
           \<and> AllowedRoles (perms h' ! r) \<noteq> None \<and> DeniedRoles (perms h' ! r) \<noteq> None
           \<and> (\<exists>h''. Allow h' (Some r) mode roles = Inr (h'', Some r))
           \<and> (\<exists>h''. Deny h' (Some r) mode' roles' = Inr (h'', Some r))"
proof -
  from Concat_entries[OF assms, of global] obtain h' ma md where
    c: "Concat global h self other = Inr (h', Some (length (perms h)))" and
    p: "perms h' = perms h @
              [\<lparr>Role = (case self of Some a \<Rightarrow> Role (perms h ! a)
                         | None \<Rightarrow> (case other of Some b \<Rightarrow> Role (perms h ! b) | None \<Rightarrow> global)),
                AllowedRoles = Some (length (maps h)),
                DeniedRoles = Some (Suc (length (maps h)))\<rparr>]" and
    m: "maps h' = maps h @ [ma, md]"
    by blast
  have a: "AllowedRoles (perms h' ! length (perms h)) = Some (length (maps h))"
    and d: "DeniedRoles (perms h' ! length (perms h)) = Some (Suc (length (maps h)))"
    by (simp_all add: p)
  have la: "length (maps h) < length (maps h')" and ld: "Suc (length (maps h)) < length (maps h')"
    by (simp_all add: m)
  from Allow_observed[OF a la, of mode roles]
  have "\<exists>h''. Allow h' (Some (length (perms h))) mode roles = Inr (h'', Some (length (perms h)))"
    by blast
  moreover from Deny_observed[OF d ld, of mode' roles']
  have "\<exists>h''. Deny h' (Some (length (perms h))) mode' roles' = Inr (h'', Some (length (perms h)))"
    by blast
  ultimately show ?thesis using c a d by auto
qed

text \<open>
  Claim C10. On a policy whose AllowedRoles (DeniedRoles) map is nil, Allow
  (Deny) faults on the map assignment, for every mode and every list of roles.
  On a policy whose map is allocated the call returns the receiver, with the
  roles appended to the entry of each mode the call expands to, and these modes
  made keys. The policy returned by Concat has both maps allocated, so Allow
  and Deny on it return.
\<close>

theorem builder_calls_need_initialized_maps:
  "(AllowedRoles (perms h ! a) = None \<longrightarrow> Allow h (Some a) mode roles = Inl NilMapAssign)
   \<and> (DeniedRoles (perms h ! a) = None \<longrightarrow> Deny h (Some a) mode roles = Inl NilMapAssign)
   \<and> (\<forall>m. AllowedRoles (perms h ! a) = Some m \<and> m < length (maps h) \<longrightarrow>
         (\<exists>h'. Allow h (Some a) mode roles = Inr (h', Some a)
            \<and> (\<forall>k. allowed_of h' (Some a) k =
                      allowed_of h (Some a) k @ (if k \<in> set (expand mode) then roles else []))
            \<and> (\<forall>k. allowed_key h' (Some a) k =
                      (allowed_key h (Some a) k \<or> k \<in> set (expand mode)))))
   \<and> (\<forall>m. DeniedRoles (perms h ! a) = Some m \<and> m < length (maps h) \<longrightarrow>
         (\<exists>h'. Deny h (Some a) mode roles = Inr (h', Some a)
            \<and> (\<forall>k. denied_of h' (Some a) k =
                      denied_of h (Some a) k @ (if k \<in> set (expand mode) then roles else []))
            \<and> (\<forall>k. denied_key h' (Some a) k =
                      (denied_key h (Some a) k \<or> k \<in> set (expand mode)))))
   \<and> (wf_heap h \<and> ref_ok (length (perms h)) self \<and> ref_ok (length (perms h)) other \<longrightarrow>
         (\<exists>h' r. Concat global h self other = Inr (h', Some r)
            \<and> AllowedRoles (perms h' ! r) \<noteq> None \<and> DeniedRoles (perms h' ! r) \<noteq> None
            \<and> (\<exists>h''. Allow h' (Some r) mode roles = Inr (h'', Some r))
            \<and> (\<exists>h''. Deny h' (Some r) mode roles = Inr (h'', Some r))))"
proof (intro conjI impI allI)
  assume "AllowedRoles (perms h ! a) = None"
  then show "Allow h (Some a) mode roles = Inl NilMapAssign" by (rule Allow_nil_map)
next
  assume "DeniedRoles (perms h ! a) = None"
  then show "Deny h (Some a) mode roles = Inl NilMapAssign" by (rule Deny_nil_map)
next
  fix m assume "AllowedRoles (perms h ! a) = Some m \<and> m < length (maps h)"
  then show "\<exists>h'. Allow h (Some a) mode roles = Inr (h', Some a)
            \<and> (\<forall>k. allowed_of h' (Some a) k =
                      allowed_of h (Some a) k @ (if k \<in> set (expand mode) then roles else []))
            \<and> (\<forall>k. allowed_key h' (Some a) k =
                      (allowed_key h (Some a) k \<or> k \<in> set (expand mode)))"
    using Allow_effect[of h a m mode roles] by simp
next
  fix m assume "DeniedRoles (perms h ! a) = Some m \<and> m < length (maps h)"
  then show "\<exists>h'. Deny h (Some a) mode roles = Inr (h', Some a)
            \<and> (\<forall>k. denied_of h' (Some a) k =
                      denied_of h (Some a) k @ (if k \<in> set (expand mode) then roles else []))
            \<and> (\<forall>k. denied_key h' (Some a) k =
                      (denied_key h (Some a) k \<or> k \<in> set (expand mode)))"
    using Deny_effect[of h a m mode roles] by simp
next
  assume "wf_heap h \<and> ref_ok (length (perms h)) self \<and> ref_ok (length (perms h)) other"
  then show "\<exists>h' r. Concat global h self other = Inr (h', Some r)
            \<and> AllowedRoles (perms h' ! r) \<noteq> None \<and> DeniedRoles (perms h' ! r) \<noteq> None
            \<and> (\<exists>h''. Allow h' (Some r) mode roles = Inr (h'', Some r))
            \<and> (\<exists>h''. Deny h' (Some r) mode roles = Inr (h'', Some r))"
    using Concat_result_initialized[of h self other global mode roles mode roles] by simp
qed


theorem builder_calls_need_initialized_maps_witness:
  "AllowedRoles (perms example_store ! 2) = None
   \<and> DeniedRoles (perms example_store ! 2) = None
   \<and> Allow example_store (Some 2) Read [''admin''] = Inl NilMapAssign
   \<and> Deny example_store (Some 2) Read [''admin''] = Inl NilMapAssign
   \<and> AllowedRoles (perms example_store ! 0) = Some 0
   \<and> (\<exists>h'. Allow example_store (Some 0) Read [''admin''] = Inr (h', Some 0)
          \<and> allowed_of h' (Some 0) Read = [''viewer'', ''admin'']
          \<and> allowed_key h' (Some 0) Read)
   \<and> DeniedRoles (perms example_store ! 0) = Some 1
   \<and> (\<exists>h'. Deny example_store (Some 0) Read [''admin''] = Inr (h', Some 0)
          \<and> denied_of h' (Some 0) Read = [''admin'']
          \<and> denied_key h' (Some 0) Read)
   \<and> wf_heap example_store
   \<and> (\<exists>h' r. Concat None example_store (Some 2) None = Inr (h', Some r)
          \<and> (\<exists>h''. Allow h' (Some r) Read [''admin''] = Inr (h'', Some r))
          \<and> (\<exists>h''. Deny h' (Some r) Read [''admin''] = Inr (h'', Some r)))"
proof -
  have z: "AllowedRoles (perms example_store ! 2) = None"
          "DeniedRoles (perms example_store ! 2) = None"
    by (simp_all add: example_perms)
  have i: "AllowedRoles (perms example_store ! 0) = Some 0 \<and> 0 < length (maps example_store)"
    by (simp add: example_perms example_maps)
  have w: "wf_heap example_store \<and> ref_ok (length (perms example_store)) (Some 2)
           \<and> ref_ok (length (perms example_store)) None"
    by (simp add: example_wf ref_ok_def example_perms)
  note t2 = builder_calls_need_initialized_maps
              [of example_store 2 Read "[''admin'']" "Some 2" None None]
  note t0 = builder_calls_need_initialized_maps
              [of example_store 0 Read "[''admin'']" "Some 2" None None]
  have f: "Allow example_store (Some 2) Read [''admin''] = Inl NilMapAssign"
          "Deny example_store (Some 2) Read [''admin''] = Inl NilMapAssign"
    using t2 z by blast+
  from t0 i obtain h' where
    a: "Allow example_store (Some 0) Read [''admin''] = Inr (h', Some 0)" and
    e: "\<And>k. allowed_of h' (Some 0) k =
              allowed_of example_store (Some 0) k
              @ (if k \<in> set (expand Read) then [''admin''] else [])" and
    k: "\<And>k. allowed_key h' (Some 0) k
              = (allowed_key example_store (Some 0) k \<or> k \<in> set (expand Read))"
    by blast
  have x: "Read \<in> set (expand Read)"
    by (simp add: expand_def mode_defs)
  have j: "DeniedRoles (perms example_store ! 0) = Some 1 \<and> 1 < length (maps example_store)"
    by (simp add: example_perms example_maps)
  from t0 j obtain hd where
    ad: "Deny example_store (Some 0) Read [''admin''] = Inr (hd, Some 0)" and
    ed: "\<And>k. denied_of hd (Some 0) k =
              denied_of example_store (Some 0) k
              @ (if k \<in> set (expand Read) then [''admin''] else [])" and
    kd: "\<And>k. denied_key hd (Some 0) k
              = (denied_key example_store (Some 0) k \<or> k \<in> set (expand Read))"
    by blast
  have "denied_of hd (Some 0) Read = [''admin'']"
    using ed[of Read] x by (simp add: denied_of_def example_perms example_get)
  moreover have "denied_key hd (Some 0) Read"
    using kd[of Read] x by simp
  ultimately have deny: "\<exists>h'. Deny example_store (Some 0) Read [''admin''] = Inr (h', Some 0)
          \<and> denied_of h' (Some 0) Read = [''admin'']
          \<and> denied_key h' (Some 0) Read"
    using ad by blast
  have "allowed_of h' (Some 0) Read = [''viewer'', ''admin'']"
    using e[of Read] x by (simp add: allowed_of_def example_perms example_get)
  moreover have "allowed_key h' (Some 0) Read"
    using k[of Read] x by simp
  moreover from t2 w have "\<exists>h' r. Concat None example_store (Some 2) None = Inr (h', Some r)
          \<and> (\<exists>h''. Allow h' (Some r) Read [''admin''] = Inr (h'', Some r))
          \<and> (\<exists>h''. Deny h' (Some r) Read [''admin''] = Inr (h'', Some r))"
    by blast
  ultimately show ?thesis using z f i j w a deny by blast
qed

section \<open>The resource wrapper\<close>

lemma boxed_roles: "foldl (\<lambda>roles role. roles @ [role]) acc xs = acc @ xs"
  by (induction xs arbitrary: acc) auto

text \<open>
  Claim C9 as stated fails for a nil context pointer: on a resource that has a
  policy, the wrapper reads the roles of the context and faults.
\<close>

theorem nil_context_counterexample:
  "Permission \<lparr>Permission = Some 0\<rparr> = Some 0
   \<and> Resource_HasPermission ''*'' example_store (Some \<lparr>Permission = Some 0\<rparr>) Read None
       = Inl NilDeref"
  by (simp add: Resource_HasPermission_def)

text \<open>
  Claim C9, amended. For every mode and every context pointer, nil or not, the
  wrapper returns true when the resource pointer is nil or the resource has no
  policy; on a resource with a policy and a context that is not nil, it returns
  what HasPermission of the policy returns on the mode and the roles of the
  context.
\<close>

theorem unprotected_resource_permits:
  "((res = None \<or> (\<exists>r. res = Some r \<and> Permission r = None))
      \<longrightarrow> Resource_HasPermission anyone h res mode context = Inr (True, []))
   \<and> (\<forall>r a c. res = Some r \<and> Permission r = Some a \<and> context = Some c
      \<longrightarrow> Resource_HasPermission anyone h res mode context
            = Inr (HasPermission anyone h (perms h ! a) mode (Roles c)))"
  by (auto simp: Resource_HasPermission_def boxed_roles[of "[]", simplified])

theorem unprotected_resource_permits_witness:
  "Resource_HasPermission ''*'' example_store None Update None = Inr (True, [])
   \<and> Resource_HasPermission ''*'' example_store (Some \<lparr>Permission = None\<rparr>) Update
        (Some \<lparr>Roles = [Str ''editor'']\<rparr>) = Inr (True, [])
   \<and> Resource_HasPermission ''*'' example_store (Some \<lparr>Permission = Some 0\<rparr>) Read
        (Some \<lparr>Roles = [Str ''viewer'']\<rparr>)
       = Inr (HasPermission ''*'' example_store (perms example_store ! 0) Read [Str ''viewer''])
   \<and> HasPermission ''*'' example_store (perms example_store ! 0) Read [Str ''viewer'']
       = (True, [])"
proof -
  have "Resource_HasPermission ''*'' example_store None Update None = Inr (True, [])"
    using unprotected_resource_permits[of None "''*''" example_store Update None] by simp
  moreover have "Resource_HasPermission ''*'' example_store (Some \<lparr>Permission = None\<rparr>) Update
        (Some \<lparr>Roles = [Str ''editor'']\<rparr>) = Inr (True, [])"
    using unprotected_resource_permits[of "Some \<lparr>Permission = None\<rparr>" "''*''" example_store
        Update "Some \<lparr>Roles = [Str ''editor'']\<rparr>"] by simp
  moreover have "Resource_HasPermission ''*'' example_store (Some \<lparr>Permission = Some 0\<rparr>) Read
        (Some \<lparr>Roles = [Str ''viewer'']\<rparr>)
       = Inr (HasPermission ''*'' example_store (perms example_store ! 0) Read [Str ''viewer''])"
    using unprotected_resource_permits[of "Some \<lparr>Permission = Some 0\<rparr>" "''*''" example_store
        Read "Some \<lparr>Roles = [Str ''viewer'']\<rparr>"] by simp
  moreover have "HasPermission ''*'' example_store (perms example_store ! 0) Read [Str ''viewer'']
        = (True, [])"
    by (simp add: HasPermission_def example_perms example_get example_len)
  ultimately show ?thesis by blast
qed

end
